theory Spec2Isabelle
  imports Main
begin

section \<open>Python string operations used by the tagger\<close>

text \<open>
  Strings are byte strings (\<open>char list\<close>); the case mapping and the white space classes
  are the ASCII parts of Python's \<open>str.lower\<close>, \<open>str.strip\<close> and \<open>str.splitlines\<close>.
\<close>

definition is_space :: "char \<Rightarrow> bool" where
  "is_space c = (c \<in> set [CHR '' '', CHR 0x09, CHR 0x0A, CHR 0x0B, CHR 0x0C, CHR 0x0D,
                            CHR 0x1C, CHR 0x1D, CHR 0x1E, CHR 0x1F])"

definition strip :: "string \<Rightarrow> string" where
  "strip s = rev (dropWhile is_space (rev (dropWhile is_space s)))"

definition lower_char :: "char \<Rightarrow> char" where
  "lower_char c =
     (case map_of (zip ''ABCDEFGHIJKLMNOPQRSTUVWXYZ'' ''abcdefghijklmnopqrstuvwxyz'') c of
        None \<Rightarrow> c
      | Some d \<Rightarrow> d)"

definition lower :: "string \<Rightarrow> string" where
  "lower s = map lower_char s"

definition is_linebreak :: "char \<Rightarrow> bool" where
  "is_linebreak c = (c \<in> set [CHR 0x0A, CHR 0x0B, CHR 0x0C, CHR 0x0D, CHR 0x1C, CHR 0x1D, CHR 0x1E])"

text \<open>\<open>str.splitlines()\<close>: a carriage return followed by a line feed is one boundary, and
  no empty line is produced after a final boundary. The first argument is the current line,
  reversed.\<close>

fun splitlines_from :: "string \<Rightarrow> string \<Rightarrow> string list" where
  "splitlines_from acc [] = (if acc = [] then [] else [rev acc])"
| "splitlines_from acc [c] = (if is_linebreak c then [rev acc] else [rev (c # acc)])"
| "splitlines_from acc (c # d # cs) =
     (if c = CHR 0x0D \<and> d = CHR 0x0A then rev acc # splitlines_from [] cs
      else if is_linebreak c then rev acc # splitlines_from [] (d # cs)
      else splitlines_from (c # acc) (d # cs))"

definition splitlines :: "string \<Rightarrow> string list" where
  "splitlines s = splitlines_from [] s"

text \<open>\<open>s.rsplit(sep, 1)\<close> for a one-character separator: split at the last occurrence,
  or the whole string alone when the separator does not occur.\<close>

definition rsplit1 :: "char \<Rightarrow> string \<Rightarrow> string list" where
  "rsplit1 sep s =
     (if sep \<in> set s
      then [rev (tl (dropWhile (\<lambda>c. c \<noteq> sep) (rev s))), rev (takeWhile (\<lambda>c. c \<noteq> sep) (rev s))]
      else [s])"

text \<open>\<open>sub in s\<close> on strings.\<close>

fun contains :: "string \<Rightarrow> string \<Rightarrow> bool" where
  "contains sub [] = (sub = [])"
| "contains sub (c # cs) = (take (length sub) (c # cs) = sub \<or> contains sub cs)"

text \<open>Truthiness of an \<open>Optional[str]\<close>, and Python's \<open>a or b\<close> on such values.\<close>

definition truthy :: "string option \<Rightarrow> bool" where
  "truthy x = (case x of None \<Rightarrow> False | Some s \<Rightarrow> s \<noteq> [])"

definition py_or :: "string option \<Rightarrow> string option \<Rightarrow> string option" where
  "py_or a b = (if truthy a then a else b)"

text \<open>\<open>str(x or d)\<close> for an optional string \<open>x\<close> and a string literal \<open>d\<close>.\<close>

definition str_or :: "string option \<Rightarrow> string \<Rightarrow> string" where
  "str_or x d = (case x of None \<Rightarrow> d | Some s \<Rightarrow> (if s = [] then d else s))"

text \<open>\<open>str(n)\<close> for a non-negative integer.\<close>

fun str_nat :: "nat \<Rightarrow> string" where
  "str_nat n =
     (if n < 10 then [''0123456789'' ! n]
      else str_nat (n div 10) @ [''0123456789'' ! (n mod 10)])"

declare str_nat.simps [simp del]

section \<open>Short identifiers\<close>

text \<open>\<open>ident.rsplit("#", 1)[-1].rsplit("/", 1)[-1]\<close>, as written in \<open>OwlLexicon.__init__\<close>
  (both passes) and in \<open>OntologyTagger.annotate_terms\<close>.\<close>

definition extract_short_id :: "string \<Rightarrow> string" where
  "extract_short_id ident = last (rsplit1 CHR ''/'' (last (rsplit1 CHR ''#'' ident)))"

section \<open>Data received from the terminology service\<close>

text \<open>A submission as the service reports it: \<open>sub.get("version")\<close> and
  \<open>sub.get("submissionId")\<close>, each possibly missing.\<close>

record submission =
  sub_version :: "string option"
  submissionId :: "nat option"

text \<open>An annotation: \<open>top.get("annotatedClass", {})\<close>, and in it \<open>prefLabel\<close> and \<open>@id\<close>.\<close>

record class_details =
  prefLabel :: "string option"
  at_id :: "string option"

record annotation =
  annotatedClass :: "class_details option"

record http_response =
  status_code :: nat
  content_type :: "string option"
  content :: string

text \<open>A parsed RDF statement; \<open>str\<close> of a node is its text.\<close>

datatype node = URIRef string | BNode string | Literal string

type_synonym triple = "node \<times> node \<times> node"

fun node_str :: "node \<Rightarrow> string" where
  "node_str (URIRef s) = s"
| "node_str (BNode s) = s"
| "node_str (Literal s) = s"

definition rdfs_label :: node where
  "rdfs_label = URIRef ''http://www.w3.org/2000/01/rdf-schema#label''"

section \<open>Errors\<close>

text \<open>
  The exceptions a call can end with. \<open>OntologyVersionNotFound\<close> carries the attributes
  \<open>ontology\<close>, \<open>version\<close> and \<open>available\<close> that its constructor stores; \<open>UpstreamError\<close>
  stands for a transport failure raised inside \<open>json_get\<close> or \<open>requests.get\<close>,
  \<open>HTTPError\<close> for \<open>raise_for_status\<close>, \<open>FileNotFoundError\<close> for \<open>read_text\<close>.
\<close>

datatype error =
    ValueError string
  | OntologyVersionNotFound string string "string list"
  | RuntimeError string
  | UpstreamError
  | HTTPError nat
  | FileNotFoundError string

section \<open>The world: remote service, file system, trace of remote operations\<close>

datatype remote_call =
    ListSubmissions string
  | AnnotateText string string
  | Download string

text \<open>
  \<open>calls\<close> is the trace of remote operations performed so far. What the service answers
  may change from one request to the next, so each answer is indexed by the number of
  requests made before it; \<open>None\<close> is a transport failure. \<open>rdf_parse\<close> is the RDF
  parser (\<open>rdflib.Graph.parse\<close>), \<open>None\<close> when the content is not a valid document;
  its result lists the statements in traversal order.
\<close>

record world =
  calls :: "remote_call list"
  catalog :: "nat \<Rightarrow> string \<Rightarrow> submission list option"
  annotator :: "nat \<Rightarrow> string \<Rightarrow> string \<Rightarrow> annotation list option"
  http :: "nat \<Rightarrow> string \<Rightarrow> http_response option"
  files :: "string \<rightharpoonup> string"
  dirs :: "string set"
  rdf_parse :: "string \<Rightarrow> triple list option"
  last_download_url :: "string option"

section \<open>Term normalization (utils.py)\<close>

definition clean_lines :: "string \<Rightarrow> string list" where
  "clean_lines text = filter (\<lambda>cleaned. cleaned \<noteq> []) (map strip (splitlines text))"

text \<open>\<open>terms\<close> is an optional iterable whose items may be \<open>None\<close>; \<open>file_path\<close> is an
  optional \<open>pathlib.Path\<close>, which is true whenever it is not \<open>None\<close>.\<close>

definition normalize_terms ::
  "string option list option \<Rightarrow> string option \<Rightarrow> world \<Rightarrow> error + string list" where
  "normalize_terms terms file_path w =
     (if terms = None \<and> file_path = None
      then Inl (ValueError ''Provide either `terms` or `file_path`.'')
      else
        let collected =
              (case terms of
                 None \<Rightarrow> []
               | Some ts \<Rightarrow>
                   concat (map (\<lambda>t. case t of None \<Rightarrow> [] | Some s \<Rightarrow> clean_lines s) ts))
        in (case file_path of
              None \<Rightarrow> Inr collected
            | Some p \<Rightarrow>
                (case files w p of
                   None \<Rightarrow> Inl (FileNotFoundError p)
                 | Some text \<Rightarrow> Inr (collected @ clean_lines text))))"

section \<open>BioPortalClient (tagger.py)\<close>

text \<open>The client as \<open>__init__\<close> leaves it: \<open>api_key\<close> is not empty (the constructor
  raises \<open>ValueError\<close> otherwise) and \<open>base_url\<close> has its trailing slashes removed.
  A remote operation is recorded in the trace by its name and arguments; the query URL
  that \<open>_url\<close> builds for \<open>json_get\<close> is not part of the model.\<close>

record client =
  api_key :: string
  base_url :: string

definition list_submissions :: "string \<Rightarrow> world \<Rightarrow> (error + submission list) \<times> world" where
  "list_submissions ontology w =
     ((case catalog w (length (calls w)) ontology of
         None \<Rightarrow> Inl UpstreamError
       | Some submissions \<Rightarrow> Inr submissions),
      w\<lparr>calls := calls w @ [ListSubmissions ontology]\<rparr>)"

definition annotate_text :: "string \<Rightarrow> string \<Rightarrow> world \<Rightarrow> (error + annotation list) \<times> world" where
  "annotate_text text ontology w =
     ((case annotator w (length (calls w)) text ontology of
         None \<Rightarrow> Inl UpstreamError
       | Some annotations \<Rightarrow> Inr annotations),
      w\<lparr>calls := calls w @ [AnnotateText text ontology]\<rparr>)"

text \<open>\<open>str(sub.get("version") or "")\<close>, the version string compared with the request
  and listed as available.\<close>

definition version_string :: "submission \<Rightarrow> string" where
  "version_string sub = str_or (sub_version sub) ''''"

definition available_versions :: "submission list \<Rightarrow> string list" where
  "available_versions submissions = map version_string submissions"

definition matches :: "string \<Rightarrow> submission list \<Rightarrow> submission list" where
  "matches v submissions = filter (\<lambda>sub. version_string sub = v) submissions"

text \<open>Lines 78-90 of \<open>download_submission\<close>: which submission is meant.\<close>

definition select_submission ::
  "string \<Rightarrow> string option \<Rightarrow> submission list \<Rightarrow> error + submission" where
  "select_submission ontology version submissions =
     (case submissions of
        [] \<Rightarrow> Inl (OntologyVersionNotFound ontology (str_or version ''latest'') [])
      | first # _ \<Rightarrow>
          (case version of
             None \<Rightarrow> Inr first
           | Some v \<Rightarrow>
               if v = [] then Inr first
               else (case matches v submissions of
                       [] \<Rightarrow> Inl (OntologyVersionNotFound ontology v (available_versions submissions))
                     | m # _ \<Rightarrow> Inr m)))"

definition download_url :: "client \<Rightarrow> string \<Rightarrow> nat \<Rightarrow> string" where
  "download_url self ontology submission_id =
     base_url self @ ''/ontologies/'' @ ontology @ ''/submissions/'' @ str_nat submission_id
       @ ''/download''"

definition final_url :: "client \<Rightarrow> string \<Rightarrow> string" where
  "final_url self url =
     url @ (if CHR ''?'' \<in> set url then ''&'' else ''?'') @ ''apikey='' @ api_key self"

definition dest_path :: "string \<Rightarrow> string \<Rightarrow> string \<Rightarrow> string" where
  "dest_path dest_dir ontology resolved_version =
     dest_dir @ ''/'' @ ontology @ ''_'' @ resolved_version @ ''.owl''"

definition path_exists :: "world \<Rightarrow> string \<Rightarrow> bool" where
  "path_exists w p = (files w p \<noteq> None \<or> p \<in> dirs w)"

definition json_metadata_message ::
  "string \<Rightarrow> http_response \<Rightarrow> nat \<Rightarrow> string \<Rightarrow> string" where
  "json_metadata_message url resp submission_id resolved_version =
     ''Downloaded JSON metadata instead of OWL file. URL: '' @ url @ [CHR 0x0A]
       @ ''Content-Type: '' @ (case content_type resp of None \<Rightarrow> ''None'' | Some c \<Rightarrow> c)
       @ [CHR 0x0A] @ ''Submission ID used: '' @ str_nat submission_id @ [CHR 0x0A]
       @ ''Version: '' @ resolved_version @ [CHR 0x0A]
       @ ''First 200 bytes: '' @ take 200 (content resp)"

text \<open>Lines 111-142: the download itself, once the cache has no file.\<close>

definition fetch_artifact ::
  "client \<Rightarrow> string \<Rightarrow> nat \<Rightarrow> string \<Rightarrow> string \<Rightarrow> world \<Rightarrow> (error + string \<times> string) \<times> world" where
  "fetch_artifact self ontology submission_id resolved_version path w =
     (let url = final_url self (download_url self ontology submission_id);
          w1 = w\<lparr>calls := calls w @ [Download url], last_download_url := Some url\<rparr>
      in (case http w (length (calls w)) url of
            None \<Rightarrow> (Inl UpstreamError, w1)
          | Some resp \<Rightarrow>
              if 400 \<le> status_code resp then (Inl (HTTPError (status_code resp)), w1)
              else if contains ''json'' (lower (case content_type resp of None \<Rightarrow> [] | Some c \<Rightarrow> c))
                      \<or> (0 < length (content resp) \<and> take 1 (content resp) = ''{'')
              then (Inl (ValueError (json_metadata_message url resp submission_id resolved_version)), w1)
              else (Inr (path, resolved_version), w1\<lparr>files := (files w1)(path \<mapsto> content resp)\<rparr>)))"

definition download_submission ::
  "client \<Rightarrow> string \<Rightarrow> string option \<Rightarrow> string \<Rightarrow> world \<Rightarrow> (error + string \<times> string) \<times> world" where
  "download_submission self ontology version dest_dir w =
     (case list_submissions ontology w of
        (Inl e, w1) \<Rightarrow> (Inl e, w1)
      | (Inr submissions, w1) \<Rightarrow>
          (case select_submission ontology version submissions of
             Inl e \<Rightarrow> (Inl e, w1)
           | Inr submission \<Rightarrow>
               let resolved_version = str_or (sub_version submission) ''latest''
               in (case submissionId submission of
                     None \<Rightarrow> (Inl (RuntimeError ''No submissionId found in submission payload.''), w1)
                   | Some submission_id \<Rightarrow>
                       if submission_id = 0
                       then (Inl (RuntimeError ''No submissionId found in submission payload.''), w1)
                       else
                         let w2 = w1\<lparr>dirs := insert dest_dir (dirs w1)\<rparr>;
                             path = dest_path dest_dir ontology resolved_version
                         in if path_exists w2 path
                            then (Inr (path, resolved_version),
                                  w2\<lparr>last_download_url := Some (''(cached) '' @ path)\<rparr>)
                            else fetch_artifact self ontology submission_id resolved_version path w2)))"

section \<open>OwlLexicon (tagger.py)\<close>

record lexicon =
  labels :: "string set"
  ids :: "string set"
  id_to_label :: "string \<rightharpoonup> string"

definition empty_lexicon :: lexicon where
  "empty_lexicon = \<lparr>labels = {}, ids = {}, id_to_label = Map.empty\<rparr>"

text \<open>First loop of \<open>__init__\<close>, over the statements whose predicate is \<open>rdfs:label\<close>.\<close>

fun label_pass :: "triple list \<Rightarrow> lexicon \<Rightarrow> lexicon" where
  "label_pass [] lx = lx"
| "label_pass ((subj, pred, obj) # rest) lx =
     (if pred \<noteq> rdfs_label then label_pass rest lx
      else
        let label = strip (node_str obj)
        in if label = [] then label_pass rest lx
           else
             let lx1 = lx\<lparr>labels := insert (lower label) (labels lx)\<rparr>
             in (case subj of
                   URIRef ident \<Rightarrow>
                     label_pass rest
                       (lx1\<lparr>id_to_label := (id_to_label lx1)(lower (extract_short_id ident) \<mapsto> label)\<rparr>)
                 | _ \<Rightarrow> label_pass rest lx1))"

text \<open>Second loop, over every statement.\<close>

fun id_pass :: "triple list \<Rightarrow> lexicon \<Rightarrow> lexicon" where
  "id_pass [] lx = lx"
| "id_pass ((subj, pred, obj) # rest) lx =
     (case subj of
        URIRef ident \<Rightarrow> id_pass rest (lx\<lparr>ids := insert (lower (extract_short_id ident)) (ids lx)\<rparr>)
      | _ \<Rightarrow> id_pass rest lx)"

definition build_lexicon :: "triple list \<Rightarrow> lexicon" where
  "build_lexicon graph = id_pass graph (label_pass graph empty_lexicon)"

definition owl_parse_message :: "string \<Rightarrow> string" where
  "owl_parse_message owl_path =
     ''Failed to parse OWL file at '' @ [CHR 0x27] @ owl_path @ [CHR 0x27]
       @ ''. The downloaded content may not be a valid ontology; ''
       @ ''verify the version exists and the download link is correct.''"

text \<open>\<open>OwlLexicon(owl_path)\<close>: parse the file, then index it.\<close>

definition OwlLexicon :: "string \<Rightarrow> world \<Rightarrow> error + lexicon" where
  "OwlLexicon owl_path w =
     (case files w owl_path of
        None \<Rightarrow> Inl (ValueError (owl_parse_message owl_path))
      | Some text \<Rightarrow>
          (case rdf_parse w text of
             None \<Rightarrow> Inl (ValueError (owl_parse_message owl_path))
           | Some graph \<Rightarrow> Inr (build_lexicon graph)))"

definition has_label :: "lexicon \<Rightarrow> string \<Rightarrow> bool" where
  "has_label lx label = (strip (lower label) \<in> labels lx)"

definition has_id :: "lexicon \<Rightarrow> string \<Rightarrow> bool" where
  "has_id lx ident = (strip (lower ident) \<in> ids lx)"

definition get_label_by_id :: "lexicon \<Rightarrow> string \<Rightarrow> string option" where
  "get_label_by_id lx ident = id_to_label lx (strip (lower ident))"

section \<open>OntologyTagger (tagger.py)\<close>

record AnnotationOutcome =
  input_text :: string
  standardized_term :: "string option"
  ontology_id :: "string option"
  ontology_version :: "string option"
  comment :: string

record tagger =
  tagger_client :: client
  downloads_dir :: string

text \<open>\<open>latest_version\<close>, line 272.\<close>

definition latest_version_of :: "submission list \<Rightarrow> string" where
  "latest_version_of submissions =
     (case submissions of [] \<Rightarrow> ''latest'' | first # _ \<Rightarrow> str_or (sub_version first) ''latest'')"

text \<open>What version resolution (lines 274-297) leaves in the local variables
  \<open>resolved_version\<close>, \<open>owl_lexicon\<close> and \<open>version_fallback\<close>.\<close>

record resolution =
  resolved_version :: "string option"
  owl_lexicon :: "lexicon option"
  version_fallback :: bool

definition resolve_version ::
  "tagger \<Rightarrow> string \<Rightarrow> string option \<Rightarrow> string \<Rightarrow> submission list \<Rightarrow> world
     \<Rightarrow> (error + resolution) \<times> world" where
  "resolve_version self ontology version on_version_missing submissions w =
     (case version of
        None \<Rightarrow> (Inr \<lparr>resolved_version = None, owl_lexicon = None, version_fallback = False\<rparr>, w)
      | Some v \<Rightarrow>
          if v = []
          then (Inr \<lparr>resolved_version = None, owl_lexicon = None, version_fallback = False\<rparr>, w)
          else if matches v submissions = []
          then (if on_version_missing = ''latest''
                then (Inr \<lparr>resolved_version = None, owl_lexicon = None, version_fallback = True\<rparr>, w)
                else (Inl (OntologyVersionNotFound ontology v (available_versions submissions)), w))
          else
            (case download_submission (tagger_client self) ontology version (downloads_dir self) w of
               (Inl e, w1) \<Rightarrow> (Inl e, w1)
             | (Inr (owl_path, resolved), w1) \<Rightarrow>
                 (case OwlLexicon owl_path w1 of
                    Inl e \<Rightarrow> (Inl e, w1)
                  | Inr lx \<Rightarrow>
                      (Inr \<lparr>resolved_version = Some resolved, owl_lexicon = Some lx,
                            version_fallback = False\<rparr>, w1))))"

text \<open>Lines 325-339: \<open>in_specified_version\<close> and \<open>owl_label\<close> for one candidate.\<close>

definition verify_in_release ::
  "lexicon option \<Rightarrow> string option \<Rightarrow> string option \<Rightarrow> bool \<times> string option" where
  "verify_in_release lexicon_opt short_id pref_label =
     (case lexicon_opt of
        None \<Rightarrow> (False, None)
      | Some lx \<Rightarrow>
          let by_id = (case short_id of
                         None \<Rightarrow> False
                       | Some sid \<Rightarrow> sid \<noteq> [] \<and> has_id lx sid);
              owl_label = (case short_id of
                             None \<Rightarrow> None
                           | Some sid \<Rightarrow> if by_id then get_label_by_id lx sid else None);
              in_specified_version =
                (if \<not> by_id \<and> truthy pref_label
                 then (case pref_label of None \<Rightarrow> False | Some l \<Rightarrow> has_label lx l)
                 else by_id)
          in (in_specified_version, owl_label))"

text \<open>Lines 315-322: the preferred label and the short identifier of a candidate.\<close>

definition candidate_pref_label :: "annotation \<Rightarrow> string option" where
  "candidate_pref_label top_annotation =
     (case annotatedClass top_annotation of None \<Rightarrow> None | Some cd \<Rightarrow> prefLabel cd)"

definition candidate_short_id :: "annotation \<Rightarrow> string option" where
  "candidate_short_id top_annotation =
     (let ontology_uri = (case annotatedClass top_annotation of None \<Rightarrow> None | Some cd \<Rightarrow> at_id cd)
      in if truthy ontology_uri then map_option extract_short_id ontology_uri else None)"

text \<open>The body of the loop over the prepared terms (lines 303-378), given what
  \<open>annotate_text\<close> returned for the term.\<close>

definition evaluate_term ::
  "string \<Rightarrow> annotation list \<Rightarrow> string option \<Rightarrow> string \<Rightarrow> resolution \<Rightarrow> string
     \<Rightarrow> AnnotationOutcome" where
  "evaluate_term trm annotations version on_version_missing res latest_version =
     (case annotations of
        [] \<Rightarrow> \<lparr>input_text = trm, standardized_term = None, ontology_id = None,
               ontology_version = None, comment = ''not matched at all''\<rparr>
      | top_annotation # _ \<Rightarrow>
          let pref_label = candidate_pref_label top_annotation;
              short_id = candidate_short_id top_annotation;
              (in_specified_version, owl_label) =
                 verify_in_release (owl_lexicon res) short_id pref_label;
              final_standardized_term = (if truthy owl_label then owl_label else pref_label)
          in if truthy version \<and> \<not> version_fallback res \<and> in_specified_version
             then \<lparr>input_text = trm, standardized_term = final_standardized_term,
                   ontology_id = short_id,
                   ontology_version = py_or (resolved_version res) version,
                   comment = ''matched in user specified version''\<rparr>
             else if truthy version \<and> version_fallback res
             then \<lparr>input_text = trm, standardized_term = final_standardized_term,
                   ontology_id = short_id, ontology_version = Some latest_version,
                   comment = ''requested version missing; matched in latest''\<rparr>
             else if truthy version \<and> \<not> in_specified_version
             then (if on_version_missing = ''latest''
                   then \<lparr>input_text = trm, standardized_term = final_standardized_term,
                         ontology_id = short_id, ontology_version = Some latest_version,
                         comment = ''matched in latest, no match in specified version''\<rparr>
                   else \<lparr>input_text = trm, standardized_term = None, ontology_id = short_id,
                         ontology_version = py_or (resolved_version res) version,
                         comment = ''strict mode: not matched in specified version''\<rparr>)
             else \<lparr>input_text = trm, standardized_term = final_standardized_term,
                   ontology_id = short_id, ontology_version = Some latest_version,
                   comment = ''matched in latest''\<rparr>)"

text \<open>The loop: one \<open>annotate_text\<close> request per term, one outcome appended per term.\<close>

fun annotate_loop ::
  "string \<Rightarrow> string option \<Rightarrow> string \<Rightarrow> resolution \<Rightarrow> string \<Rightarrow> string list
     \<Rightarrow> AnnotationOutcome list \<Rightarrow> world \<Rightarrow> (error + AnnotationOutcome list) \<times> world" where
  "annotate_loop ontology version on_version_missing res latest_version [] outcomes w =
     (Inr outcomes, w)"
| "annotate_loop ontology version on_version_missing res latest_version (trm # rest) outcomes w =
     (case annotate_text trm ontology w of
        (Inl e, w1) \<Rightarrow> (Inl e, w1)
      | (Inr annotations, w1) \<Rightarrow>
          annotate_loop ontology version on_version_missing res latest_version rest
            (outcomes @ [evaluate_term trm annotations version on_version_missing res latest_version])
            w1)"

definition annotate_terms ::
  "tagger \<Rightarrow> string \<Rightarrow> string option list option \<Rightarrow> string option \<Rightarrow> string option \<Rightarrow> string
     \<Rightarrow> world \<Rightarrow> (error + AnnotationOutcome list) \<times> world" where
  "annotate_terms self ontology terms file_path version on_version_missing w =
     (case normalize_terms terms file_path w of
        Inl e \<Rightarrow> (Inl e, w)
      | Inr prepared_terms \<Rightarrow>
          if prepared_terms = [] then (Inr [], w)
          else
            (case list_submissions ontology w of
               (Inl e, w1) \<Rightarrow> (Inl e, w1)
             | (Inr submissions, w1) \<Rightarrow>
                 (case resolve_version self ontology version on_version_missing submissions w1 of
                    (Inl e, w2) \<Rightarrow> (Inl e, w2)
                  | (Inr res, w2) \<Rightarrow>
                      annotate_loop ontology version on_version_missing res
                        (latest_version_of submissions) prepared_terms [] w2)))"

section \<open>The short identifier rule as the specification words it\<close>

definition after_last :: "char \<Rightarrow> string \<Rightarrow> string" where
  "after_last sep s = rev (takeWhile (\<lambda>c. c \<noteq> sep) (rev s))"

text \<open>"The substring after the last \<open>#\<close> if one exists, else after the last \<open>/\<close>".\<close>

definition short_id_as_specified :: "string \<Rightarrow> string" where
  "short_id_as_specified ident =
     (if CHR ''#'' \<in> set ident then after_last CHR ''#'' ident else after_last CHR ''/'' ident)"

section \<open>Observations on the trace\<close>

fun is_list_submissions :: "remote_call \<Rightarrow> bool" where
  "is_list_submissions (ListSubmissions _) = True"
| "is_list_submissions _ = False"

fun is_download :: "remote_call \<Rightarrow> bool" where
  "is_download (Download _) = True"
| "is_download _ = False"

definition list_requests :: "world \<Rightarrow> nat" where
  "list_requests w = length (filter is_list_submissions (calls w))"

definition downloads :: "world \<Rightarrow> nat" where
  "downloads w = length (filter is_download (calls w))"

text \<open>The comments of the outcomes that are reported against the latest version.\<close>

definition latest_comments :: "string set" where
  "latest_comments = {''matched in latest'', ''requested version missing; matched in latest'',
                      ''matched in latest, no match in specified version''}"

text \<open>Whether the lexicon has the short identifier of a candidate, and whether it has its
  preferred label.\<close>

definition id_in_release :: "lexicon \<Rightarrow> annotation \<Rightarrow> bool" where
  "id_in_release lx top_annotation =
     (case candidate_short_id top_annotation of
        None \<Rightarrow> False
      | Some sid \<Rightarrow> sid \<noteq> [] \<and> has_id lx sid)"

definition label_in_release :: "lexicon \<Rightarrow> annotation \<Rightarrow> bool" where
  "label_in_release lx top_annotation =
     (case candidate_pref_label top_annotation of
        None \<Rightarrow> False
      | Some l \<Rightarrow> l \<noteq> [] \<and> has_label lx l)"

section \<open>A concrete service\<close>

text \<open>Ontology \<open>CL\<close> with two releases, the release file of \<open>2023-01-01\<close> holding the
  identifier \<open>CL_0000001\<close> labelled \<open>cell\<close>; the annotator knows \<open>cell\<close> and \<open>neuron\<close>
  and nothing else.\<close>

definition cl_submissions :: "submission list" where
  "cl_submissions = [\<lparr>sub_version = Some ''2024-01-01'', submissionId = Some 9\<rparr>,
                     \<lparr>sub_version = Some ''2023-01-01'', submissionId = Some 7\<rparr>]"

definition cell_annotation :: annotation where
  "cell_annotation =
     \<lparr>annotatedClass = Some \<lparr>prefLabel = Some ''cell'',
                              at_id = Some ''http://purl.obolibrary.org/obo/CL_0000001''\<rparr>\<rparr>"

definition neuron_annotation :: annotation where
  "neuron_annotation =
     \<lparr>annotatedClass = Some \<lparr>prefLabel = Some ''neuron'',
                              at_id = Some ''http://purl.obolibrary.org/obo/CL_0000540''\<rparr>\<rparr>"

definition cl_graph :: "triple list" where
  "cl_graph = [(URIRef ''http://purl.obolibrary.org/obo/CL_0000001'', rdfs_label, Literal ''cell'')]"

definition cl_annotator :: "string \<Rightarrow> annotation list" where
  "cl_annotator text =
     (if text = ''cell'' then [cell_annotation]
      else if text = ''neuron'' then [neuron_annotation] else [])"

definition w0 :: world where
  "w0 = \<lparr>calls = [],
          catalog = (\<lambda>t ontology. Some cl_submissions),
          annotator = (\<lambda>t text ontology. Some (cl_annotator text)),
          http = (\<lambda>t url. Some \<lparr>status_code = 200, content_type = Some ''application/rdf+xml'',
                                  content = ''<rdf:RDF/>''\<rparr>),
          files = Map.empty, dirs = {},
          rdf_parse = (\<lambda>text. Some cl_graph),
          last_download_url = None\<rparr>"

text \<open>The same service for an ontology without any release.\<close>

definition w_empty :: world where
  "w_empty = w0\<lparr>catalog := (\<lambda>t ontology. Some [])\<rparr>"

definition tg :: tagger where
  "tg = \<lparr>tagger_client = \<lparr>api_key = ''k'', base_url = ''https://data.bioontology.org''\<rparr>,
          downloads_dir = ''downloads''\<rparr>"

definition cl_lexicon :: lexicon where
  "cl_lexicon = build_lexicon cl_graph"

text \<open>A candidate that has the label of the release in another case and no identifier.\<close>

definition label_only_annotation :: annotation where
  "label_only_annotation = \<lparr>annotatedClass = Some \<lparr>prefLabel = Some ''Cell'', at_id = None\<rparr>\<rparr>"

text \<open>What version resolution leaves when release \<open>2023-01-01\<close> was requested and found.\<close>

definition res_2023 :: resolution where
  "res_2023 = \<lparr>resolved_version = Some ''2023-01-01'', owl_lexicon = Some cl_lexicon,
                version_fallback = False\<rparr>"

text \<open>The world after a first download of release \<open>2023-01-01\<close>.\<close>

definition w_downloaded :: world where
  "w_downloaded =
     snd (download_submission (tagger_client tg) ''CL'' (Some ''2023-01-01'') ''downloads'' w0)"

section \<open>Short identifiers: theorems\<close>

lemma takeWhile_rev_all: "sep \<notin> set s \<Longrightarrow> takeWhile (\<lambda>c. c \<noteq> sep) (rev s) = rev s"
  by (rule takeWhile_eq_all_conv [THEN iffD2]) auto

lemma after_last_no_sep:
  assumes "sep \<notin> set s"
  shows "after_last sep s = s"
proof -
  have "after_last sep s = rev (rev s)"
    unfolding after_last_def using takeWhile_rev_all [OF assms] by (rule arg_cong)
  then show ?thesis by simp
qed

lemma last_rsplit1: "last (rsplit1 sep s) = after_last sep s"
proof (cases "sep \<in> set s")
  case True
  then show ?thesis by (simp add: rsplit1_def after_last_def)
next
  case False
  then show ?thesis by (simp add: rsplit1_def after_last_no_sep)
qed

lemma takeWhile_takeWhile:
  "takeWhile P (takeWhile Q xs) = takeWhile (\<lambda>x. P x \<and> Q x) xs"
  by (induction xs) auto

lemma extract_short_id_suffix:
  "extract_short_id ident = rev (takeWhile (\<lambda>c. c \<noteq> CHR ''/'' \<and> c \<noteq> CHR ''#'') (rev ident))"
  by (simp add: extract_short_id_def last_rsplit1 after_last_def takeWhile_takeWhile)

text \<open>
  C4, as amended. The extraction returns the part after the last \<open>/\<close> of the part after
  the last \<open>#\<close>, which is the longest suffix holding neither \<open>#\<close> nor \<open>/\<close>. It is
  the rule of the specification whenever no \<open>/\<close> follows the last \<open>#\<close>, and it maps
  \<open>http://x/A#Foo\<close> to \<open>Foo\<close> and \<open>http://x/A/Bar\<close> to \<open>Bar\<close>.
\<close>

theorem extract_short_id_rule:
  "extract_short_id ident = after_last CHR ''/'' (after_last CHR ''#'' ident)
   \<and> extract_short_id ident = rev (takeWhile (\<lambda>c. c \<noteq> CHR ''/'' \<and> c \<noteq> CHR ''#'') (rev ident))
   \<and> (CHR ''/'' \<notin> set (after_last CHR ''#'' ident) \<and> CHR ''#'' \<in> set ident
        \<longrightarrow> extract_short_id ident = short_id_as_specified ident)
   \<and> (CHR ''#'' \<notin> set ident \<longrightarrow> extract_short_id ident = short_id_as_specified ident)
   \<and> extract_short_id ''http://x/A#Foo'' = ''Foo''
   \<and> extract_short_id ''http://x/A/Bar'' = ''Bar''"
proof -
  have a: "extract_short_id ident = after_last CHR ''/'' (after_last CHR ''#'' ident)"
    by (simp add: extract_short_id_def last_rsplit1)
  have b: "CHR ''/'' \<notin> set (after_last CHR ''#'' ident) \<and> CHR ''#'' \<in> set ident
        \<longrightarrow> extract_short_id ident = short_id_as_specified ident"
    by (simp add: a short_id_as_specified_def after_last_no_sep)
  have c: "CHR ''#'' \<notin> set ident \<longrightarrow> extract_short_id ident = short_id_as_specified ident"
    by (simp add: a short_id_as_specified_def after_last_no_sep)
  have d: "extract_short_id ''http://x/A#Foo'' = ''Foo''"
    by (simp add: extract_short_id_def rsplit1_def)
  have e: "extract_short_id ''http://x/A/Bar'' = ''Bar''"
    by (simp add: extract_short_id_def rsplit1_def)
  from a b c d e extract_short_id_suffix show ?thesis by blast
qed

theorem extract_short_id_rule_witness:
  "CHR ''/'' \<notin> set (after_last CHR ''#'' ''http://x/A#Foo'') \<and> CHR ''#'' \<in> set ''http://x/A#Foo''
   \<and> CHR ''#'' \<notin> set ''http://x/A/Bar''
   \<and> extract_short_id ''http://x/A#Foo'' = short_id_as_specified ''http://x/A#Foo''
   \<and> extract_short_id ''http://x/A/Bar'' = short_id_as_specified ''http://x/A/Bar''"
proof -
  have h1: "CHR ''/'' \<notin> set (after_last CHR ''#'' ''http://x/A#Foo'') \<and> CHR ''#'' \<in> set ''http://x/A#Foo''"
    by (simp add: after_last_def)
  have h2: "CHR ''#'' \<notin> set ''http://x/A/Bar''"
    by simp
  from h1 h2 extract_short_id_rule [of "''http://x/A#Foo''"]
    extract_short_id_rule [of "''http://x/A/Bar''"]
  show ?thesis by blast
qed

theorem extract_short_id_counterexample:
  "extract_short_id ''http://x/A#Foo/Bar'' = ''Bar''
   \<and> short_id_as_specified ''http://x/A#Foo/Bar'' = ''Foo/Bar''"
  by (simp add: extract_short_id_def rsplit1_def short_id_as_specified_def after_last_def)

section \<open>The loop over the terms\<close>

lemma evaluate_term_input_text [simp]:
  "input_text (evaluate_term trm annotations version ovm res latest) = trm"
  by (simp add: evaluate_term_def Let_def split: list.splits prod.splits)

lemma annotate_text_world:
  "annotate_text text ontology w = (r, w') \<Longrightarrow>
     w' = w\<lparr>calls := calls w @ [AnnotateText text ontology]\<rparr>"
  by (auto simp: annotate_text_def)

lemma annotate_loop_inputs:
  "annotate_loop ontology version ovm res latest ts outs w = (Inr r, w')
     \<Longrightarrow> \<exists>new. r = outs @ new \<and> map input_text new = ts"
proof (induction ts arbitrary: outs w)
  case Nil
  then show ?case by simp
next
  case (Cons t ts)
  obtain a w1 where step: "annotate_text t ontology w = (a, w1)"
    by (cases "annotate_text t ontology w")
  show ?case
  proof (cases a)
    case (Inl e)
    with Cons.prems step show ?thesis by simp
  next
    case (Inr annotations)
    with Cons.prems step have rest: "annotate_loop ontology version ovm res latest ts
                 (outs @ [evaluate_term t annotations version ovm res latest]) w1 = (Inr r, w')"
      by simp
    from Cons.IH [OF rest] obtain new where new:
      "r = (outs @ [evaluate_term t annotations version ovm res latest]) @ new"
      "map input_text new = ts" by blast
    show ?thesis
      by (rule exI [of _ "evaluate_term t annotations version ovm res latest # new"])
         (simp add: new)
  qed
qed


lemma annotate_loop_trace:
  "annotate_loop ontology version ovm res latest ts outs w = (r, w')
     \<Longrightarrow> \<exists>k \<le> length ts. w' = w\<lparr>calls := calls w @ map (\<lambda>t. AnnotateText t ontology) (take k ts)\<rparr>
            \<and> (\<forall>outs'. r = Inr outs' \<longrightarrow> k = length ts)"
proof (induction ts arbitrary: outs w)
  case Nil
  then show ?case by simp
next
  case (Cons t ts)
  obtain a w1 where step: "annotate_text t ontology w = (a, w1)"
    by (cases "annotate_text t ontology w")
  then have w1: "w1 = w\<lparr>calls := calls w @ [AnnotateText t ontology]\<rparr>"
    by (rule annotate_text_world)
  show ?case
  proof (cases a)
    case (Inl e)
    with Cons.prems step have "r = Inl e \<and> w' = w1" by simp
    then show ?thesis
      by (intro exI [of _ 1]) (simp add: w1)
  next
    case (Inr annotations)
    with Cons.prems step have rest: "annotate_loop ontology version ovm res latest ts
                 (outs @ [evaluate_term t annotations version ovm res latest]) w1 = (r, w')"
      by simp
    from Cons.IH [OF rest] obtain k where k: "k \<le> length ts"
       "w' = w1\<lparr>calls := calls w1 @ map (\<lambda>t. AnnotateText t ontology) (take k ts)\<rparr>"
       "\<forall>outs'. r = Inr outs' \<longrightarrow> k = length ts" by blast
    show ?thesis
      by (intro exI [of _ "Suc k"]) (simp add: k w1)
  qed
qed

lemma annotate_loop_answered:
  assumes "length answers = length ts"
    and "\<forall>i < length ts. annotator w (length (calls w) + i) (ts ! i) ontology = Some (answers ! i)"
  shows "annotate_loop ontology version ovm res latest ts outs w
           = (Inr (outs @ map2 (\<lambda>t a. evaluate_term t a version ovm res latest) ts answers),
              w\<lparr>calls := calls w @ map (\<lambda>t. AnnotateText t ontology) ts\<rparr>)"
  using assms
proof (induction ts arbitrary: outs w answers)
  case Nil
  then show ?case by simp
next
  case (Cons t ts)
  from Cons.prems(1) obtain a rest where answers: "answers = a # rest" "length rest = length ts"
    by (cases answers) auto
  from Cons.prems(2) answers have first: "annotator w (length (calls w)) t ontology = Some a"
    by fastforce
  define w1 where "w1 = w\<lparr>calls := calls w @ [AnnotateText t ontology]\<rparr>"
  have step: "annotate_text t ontology w = (Inr a, w1)"
    by (simp add: annotate_text_def first w1_def)
  have later: "\<forall>i < length ts. annotator w1 (length (calls w1) + i) (ts ! i) ontology = Some (rest ! i)"
  proof (intro allI impI)
    fix i assume "i < length ts"
    then have "Suc i < length (t # ts)" by simp
    with Cons.prems(2) have "annotator w (length (calls w) + Suc i) ((t # ts) ! Suc i) ontology
        = Some (answers ! Suc i)" by blast
    then show "annotator w1 (length (calls w1) + i) (ts ! i) ontology = Some (rest ! i)"
      by (simp add: w1_def answers)
  qed
  from Cons.IH [OF answers(2) later, of "outs @ [evaluate_term t a version ovm res latest]"]
  show ?case
    by (simp add: step answers w1_def)
qed

lemma map2_input_text:
  "length answers = length ts
     \<Longrightarrow> map input_text (map2 (\<lambda>t a. evaluate_term t a version ovm res latest) ts answers) = ts"
  by (induction answers ts rule: list_induct2) simp_all

section \<open>Runs on the concrete service\<close>

lemmas ev_strings = clean_lines_def splitlines_def strip_def is_space_def is_linebreak_def
  str_or_def truthy_def py_or_def extract_short_id_def rsplit1_def lower_def lower_char_def
  str_nat.simps

lemmas ev_world = w0_def w_empty_def tg_def cl_submissions_def cell_annotation_def
  neuron_annotation_def cl_graph_def cl_annotator_def

lemmas ev_client = list_submissions_def annotate_text_def matches_def version_string_def
  available_versions_def select_submission_def download_submission_def dest_path_def
  path_exists_def fetch_artifact_def final_url_def download_url_def

lemmas ev_lexicon = OwlLexicon_def build_lexicon_def empty_lexicon_def has_id_def has_label_def
  get_label_by_id_def rdfs_label_def

lemmas ev_tagger = annotate_terms_def normalize_terms_def resolve_version_def
  latest_version_of_def evaluate_term_def verify_in_release_def candidate_pref_label_def
  candidate_short_id_def Let_def

lemma normalize_two_terms:
  "normalize_terms (Some [Some ''cell'', Some ''unicorn horn'']) None w0
     = Inr [''cell'', ''unicorn horn'']"
  by (simp add: normalize_terms_def ev_strings)

lemma normalize_blank_terms:
  "normalize_terms (Some [Some '' '', None]) None w0 = Inr []"
  by (simp add: normalize_terms_def ev_strings)

text \<open>The scenario of the specification: version \<open>2023-01-01\<close> exists, \<open>cell\<close> is in it,
  \<open>unicorn horn\<close> has no candidate.\<close>

lemma run_found_outcomes:
  "fst (annotate_terms tg ''CL'' (Some [Some ''cell'', Some ''unicorn horn'']) None
          (Some ''2023-01-01'') ''error'' w0) =
   Inr [\<lparr>input_text = ''cell'', standardized_term = Some ''cell'',
          ontology_id = Some ''CL_0000001'', ontology_version = Some ''2023-01-01'',
          comment = ''matched in user specified version''\<rparr>,
        \<lparr>input_text = ''unicorn horn'', standardized_term = None,
          ontology_id = None, ontology_version = None,
          comment = ''not matched at all''\<rparr>]"
  by (simp add: ev_tagger ev_client ev_lexicon ev_world ev_strings)

lemma run_found_calls:
  "calls (snd (annotate_terms tg ''CL'' (Some [Some ''cell'', Some ''unicorn horn'']) None
                 (Some ''2023-01-01'') ''error'' w0)) =
   [ListSubmissions ''CL'', ListSubmissions ''CL'',
    Download ''https://data.bioontology.org/ontologies/CL/submissions/7/download?apikey=k'',
    AnnotateText ''cell'' ''CL'', AnnotateText ''unicorn horn'' ''CL'']"
  by (simp add: ev_tagger ev_client ev_lexicon ev_world ev_strings)

section \<open>One outcome per term\<close>

lemma annotate_terms_success:
  assumes norm: "normalize_terms terms file_path w = Inr ts"
    and ne: "ts \<noteq> []"
    and run: "annotate_terms self ontology terms file_path version ovm w = (Inr outs, w')"
  shows "map input_text outs = ts"
proof -
  obtain a w1 where ls: "list_submissions ontology w = (a, w1)"
    by (cases "list_submissions ontology w")
  show ?thesis
  proof (cases a)
    case (Inl e)
    with norm ne ls run show ?thesis by (simp add: annotate_terms_def)
  next
    case (Inr submissions)
    obtain b w2 where rv: "resolve_version self ontology version ovm submissions w1 = (b, w2)"
      by (cases "resolve_version self ontology version ovm submissions w1")
    show ?thesis
    proof (cases b)
      case (Inl e)
      with norm ne ls Inr rv run show ?thesis by (simp add: annotate_terms_def)
    next
      case res: (Inr res)
      with norm ne ls Inr rv run
      have "annotate_loop ontology version ovm res (latest_version_of submissions) ts [] w2
              = (Inr outs, w')"
        by (simp add: annotate_terms_def)
      from annotate_loop_inputs [OF this] show ?thesis by simp
    qed
  qed
qed

text \<open>
  C1. Whenever the normalized term sequence is non-empty and the call returns, it returns
  exactly one outcome per normalized term, in the order of the terms; and the call does
  return whenever the listing of the submissions is answered, version resolution does
  not fail and every annotation request is answered. When the normalized sequence is
  empty the call returns the empty sequence and leaves the world, with its trace of
  remote operations, as it was: no \<open>list_submissions\<close>, no \<open>annotate_text\<close>, no
  download.
\<close>

theorem annotate_terms_one_outcome_per_term:
  "(normalize_terms terms file_path w = Inr ts \<and> ts \<noteq> []
      \<and> annotate_terms self ontology terms file_path version ovm w = (Inr outs, w')
     \<longrightarrow> length outs = length ts \<and> map input_text outs = ts)
   \<and> (normalize_terms terms file_path w = Inr ts \<and> ts \<noteq> []
      \<and> catalog w (length (calls w)) ontology = Some submissions
      \<and> resolve_version self ontology version ovm submissions
            (w\<lparr>calls := calls w @ [ListSubmissions ontology]\<rparr>) = (Inr res, w2)
      \<and> length answers = length ts
      \<and> (\<forall>i < length ts.
             annotator w2 (length (calls w2) + i) (ts ! i) ontology = Some (answers ! i))
     \<longrightarrow> (\<exists>outs' w''. annotate_terms self ontology terms file_path version ovm w = (Inr outs', w'')
            \<and> length outs' = length ts \<and> map input_text outs' = ts))
   \<and> (normalize_terms terms file_path w = Inr []
     \<longrightarrow> annotate_terms self ontology terms file_path version ovm w = (Inr [], w)
         \<and> calls (snd (annotate_terms self ontology terms file_path version ovm w)) = calls w)"
proof (intro conjI impI)
  assume h: "normalize_terms terms file_path w = Inr ts \<and> ts \<noteq> []
      \<and> annotate_terms self ontology terms file_path version ovm w = (Inr outs, w')"
  then have m: "map input_text outs = ts"
    using annotate_terms_success by blast
  then show "map input_text outs = ts" .
  from m have "length (map input_text outs) = length ts" by simp
  then show "length outs = length ts" by simp
next
  assume h: "normalize_terms terms file_path w = Inr ts \<and> ts \<noteq> []
      \<and> catalog w (length (calls w)) ontology = Some submissions
      \<and> resolve_version self ontology version ovm submissions
            (w\<lparr>calls := calls w @ [ListSubmissions ontology]\<rparr>) = (Inr res, w2)
      \<and> length answers = length ts
      \<and> (\<forall>i < length ts.
             annotator w2 (length (calls w2) + i) (ts ! i) ontology = Some (answers ! i))"
  define outs' where
    "outs' = map2 (\<lambda>t a. evaluate_term t a version ovm res (latest_version_of submissions)) ts answers"
  from h have len: "length answers = length ts"
    and answered: "\<forall>i < length ts.
             annotator w2 (length (calls w2) + i) (ts ! i) ontology = Some (answers ! i)"
    by simp_all
  have loop: "annotate_loop ontology version ovm res (latest_version_of submissions) ts [] w2
           = (Inr outs', w2\<lparr>calls := calls w2 @ map (\<lambda>t. AnnotateText t ontology) ts\<rparr>)"
    using annotate_loop_answered [OF len answered, of version ovm res
             "latest_version_of submissions" "[]"]
    by (simp add: outs'_def)
  have run: "annotate_terms self ontology terms file_path version ovm w
           = (Inr outs', w2\<lparr>calls := calls w2 @ map (\<lambda>t. AnnotateText t ontology) ts\<rparr>)"
    using h loop by (simp add: annotate_terms_def list_submissions_def)
  have m: "map input_text outs' = ts"
    unfolding outs'_def by (rule map2_input_text [OF len])
  have l: "length outs' = length ts"
    by (simp add: outs'_def len)
  from run l m
  show "\<exists>outs' w''. annotate_terms self ontology terms file_path version ovm w = (Inr outs', w'')
            \<and> length outs' = length ts \<and> map input_text outs' = ts"
    by blast
next
  assume "normalize_terms terms file_path w = Inr []"
  then show "annotate_terms self ontology terms file_path version ovm w = (Inr [], w)"
    by (simp add: annotate_terms_def)
next
  assume "normalize_terms terms file_path w = Inr []"
  then show "calls (snd (annotate_terms self ontology terms file_path version ovm w)) = calls w"
    by (simp add: annotate_terms_def)
qed

theorem annotate_terms_one_outcome_per_term_witness:
  "normalize_terms (Some [Some ''cell'', Some ''unicorn horn'']) None w0
     = Inr [''cell'', ''unicorn horn'']
   \<and> (\<exists>outs w'. annotate_terms tg ''CL'' (Some [Some ''cell'', Some ''unicorn horn'']) None
                     (Some ''2023-01-01'') ''error'' w0 = (Inr outs, w')
        \<and> length outs = 2 \<and> map input_text outs = [''cell'', ''unicorn horn''])
   \<and> catalog w0 (length (calls w0)) ''CL'' = Some cl_submissions
   \<and> (\<exists>outs w'. annotate_terms tg ''CL'' (Some [Some ''cell'', Some ''unicorn horn'']) None
                     None ''error'' w0 = (Inr outs, w')
        \<and> length outs = 2 \<and> map input_text outs = [''cell'', ''unicorn horn''])
   \<and> normalize_terms (Some [Some '' '', None]) None w0 = Inr []
   \<and> annotate_terms tg ''CL'' (Some [Some '' '', None]) None (Some ''2023-01-01'') ''error'' w0
       = (Inr [], w0)"
proof -
  obtain outs w' where run:
    "annotate_terms tg ''CL'' (Some [Some ''cell'', Some ''unicorn horn'']) None
       (Some ''2023-01-01'') ''error'' w0 = (Inr outs, w')"
    using run_found_outcomes
    by (cases "annotate_terms tg ''CL'' (Some [Some ''cell'', Some ''unicorn horn'']) None
                 (Some ''2023-01-01'') ''error'' w0") simp
  have ne: "[''cell'', ''unicorn horn''] \<noteq> []" by simp
  from annotate_terms_one_outcome_per_term
         [where terms = "Some [Some ''cell'', Some ''unicorn horn'']" and file_path = None
            and w = w0 and ts = "[''cell'', ''unicorn horn'']" and self = tg and ontology = "''CL''"
            and version = "Some ''2023-01-01''" and ovm = "''error''" and outs = outs and w' = w']
       normalize_two_terms ne run
  have a: "length outs = length [''cell'', ''unicorn horn'']
           \<and> map input_text outs = [''cell'', ''unicorn horn'']"
    by blast
  then have a': "length outs = 2 \<and> map input_text outs = [''cell'', ''unicorn horn'']" by simp
  have found: "\<exists>outs w'. annotate_terms tg ''CL'' (Some [Some ''cell'', Some ''unicorn horn'']) None
                     (Some ''2023-01-01'') ''error'' w0 = (Inr outs, w')
        \<and> length outs = 2 \<and> map input_text outs = [''cell'', ''unicorn horn'']"
    by (rule exI [of _ outs], rule exI [of _ w']) (simp only: run a' simp_thms)
  define w1 where "w1 = w0\<lparr>calls := calls w0 @ [ListSubmissions ''CL'']\<rparr>"
  define res where "res = \<lparr>resolved_version = None, owl_lexicon = None, version_fallback = False\<rparr>"
  have cat: "catalog w0 (length (calls w0)) ''CL'' = Some cl_submissions"
    by (simp add: w0_def)
  have rv: "resolve_version tg ''CL'' None ''error'' cl_submissions
              (w0\<lparr>calls := calls w0 @ [ListSubmissions ''CL'']\<rparr>) = (Inr res, w1)"
    by (simp add: resolve_version_def res_def w1_def)
  have len: "length [[cell_annotation], []] = length [''cell'', ''unicorn horn'']" by simp
  have answered: "\<forall>i < length [''cell'', ''unicorn horn''].
         annotator w1 (length (calls w1) + i) ([''cell'', ''unicorn horn''] ! i) ''CL''
           = Some ([[cell_annotation], []] ! i)"
    by (auto simp: w1_def w0_def cl_annotator_def less_Suc_eq)
  from annotate_terms_one_outcome_per_term
         [where terms = "Some [Some ''cell'', Some ''unicorn horn'']" and file_path = None
            and w = w0 and ts = "[''cell'', ''unicorn horn'']" and self = tg and ontology = "''CL''"
            and version = None and ovm = "''error''" and submissions = cl_submissions
            and res = res and ?w2.0 = w1 and answers = "[[cell_annotation], []]"]
       normalize_two_terms ne cat rv len answered
  have "\<exists>outs w'. annotate_terms tg ''CL'' (Some [Some ''cell'', Some ''unicorn horn'']) None
                     None ''error'' w0 = (Inr outs, w')
        \<and> length outs = length [''cell'', ''unicorn horn'']
        \<and> map input_text outs = [''cell'', ''unicorn horn'']"
    by blast
  then have latest: "\<exists>outs w'. annotate_terms tg ''CL'' (Some [Some ''cell'', Some ''unicorn horn'']) None
                     None ''error'' w0 = (Inr outs, w')
        \<and> length outs = 2 \<and> map input_text outs = [''cell'', ''unicorn horn'']"
    by (simp add: numeral_2_eq_2)
  from annotate_terms_one_outcome_per_term
         [where terms = "Some [Some '' '', None]" and file_path = None and w = w0 and self = tg
            and ontology = "''CL''" and version = "Some ''2023-01-01''" and ovm = "''error''"]
       normalize_blank_terms
  have b: "annotate_terms tg ''CL'' (Some [Some '' '', None]) None (Some ''2023-01-01'') ''error'' w0
             = (Inr [], w0)"
    by blast
  from normalize_two_terms found cat latest normalize_blank_terms b show ?thesis
    by (intro conjI)
qed

text \<open>
  C10. With both \<open>terms\<close> and \<open>file_path\<close> absent the call ends with the \<open>ValueError\<close>
  of \<open>normalize_terms\<close> and the world, with its trace of remote operations, is as it
  was; and the call returns the empty sequence only if one of the two was supplied and
  the terms normalize to the empty sequence.
\<close>

theorem annotate_terms_no_input:
  "annotate_terms self ontology None None version ovm w
     = (Inl (ValueError ''Provide either `terms` or `file_path`.''), w)
   \<and> (annotate_terms self ontology terms file_path version ovm w = (Inr [], w')
        \<longrightarrow> (terms \<noteq> None \<or> file_path \<noteq> None)
            \<and> normalize_terms terms file_path w = Inr [])"
proof (intro conjI impI)
  show "annotate_terms self ontology None None version ovm w
     = (Inl (ValueError ''Provide either `terms` or `file_path`.''), w)"
    by (simp add: annotate_terms_def normalize_terms_def)
next
  assume run: "annotate_terms self ontology terms file_path version ovm w = (Inr [], w')"
  show "normalize_terms terms file_path w = Inr []"
  proof (cases "normalize_terms terms file_path w")
    case (Inl e)
    with run show ?thesis by (simp add: annotate_terms_def)
  next
    case (Inr ts)
    show ?thesis
    proof (cases "ts = []")
      case True
      with Inr show ?thesis by simp
    next
      case False
      from annotate_terms_success [OF Inr False run] have "ts = []" by simp
      with False show ?thesis by simp
    qed
  qed
  then show "terms \<noteq> None \<or> file_path \<noteq> None"
    by (cases "terms = None \<and> file_path = None") (simp_all add: normalize_terms_def)
qed

theorem annotate_terms_no_input_witness:
  "annotate_terms tg ''CL'' (Some [Some '' '', None]) None None ''error'' w0 = (Inr [], w0)
   \<and> normalize_terms (Some [Some '' '', None]) None w0 = Inr []"
proof -
  have run: "annotate_terms tg ''CL'' (Some [Some '' '', None]) None None ''error'' w0 = (Inr [], w0)"
    by (simp add: annotate_terms_def normalize_blank_terms)
  from annotate_terms_no_input [of tg "''CL''" None "''error''" w0 "Some [Some '' '', None]" None w0] run
  show ?thesis by blast
qed

section \<open>Version resolution\<close>

lemma matches_empty_iff: "matches v submissions = [] \<longleftrightarrow> v \<notin> set (available_versions submissions)"
  by (auto simp: matches_def available_versions_def filter_empty_conv)

lemma download_submission_unfold:
  assumes "catalog w (length (calls w)) ontology = Some submissions"
    and "select_submission ontology version submissions = Inr sub"
    and "submissionId sub = Some sid" and "sid \<noteq> 0"
  shows "download_submission self ontology version dest_dir w =
     (if path_exists (w\<lparr>calls := calls w @ [ListSubmissions ontology], dirs := insert dest_dir (dirs w)\<rparr>)
           (dest_path dest_dir ontology (str_or (sub_version sub) ''latest''))
      then (Inr (dest_path dest_dir ontology (str_or (sub_version sub) ''latest''),
                 str_or (sub_version sub) ''latest''),
            w\<lparr>calls := calls w @ [ListSubmissions ontology], dirs := insert dest_dir (dirs w),
              last_download_url := Some (''(cached) '' @ dest_path dest_dir ontology (str_or (sub_version sub) ''latest''))\<rparr>)
      else fetch_artifact self ontology sid (str_or (sub_version sub) ''latest'')
             (dest_path dest_dir ontology (str_or (sub_version sub) ''latest''))
             (w\<lparr>calls := calls w @ [ListSubmissions ontology], dirs := insert dest_dir (dirs w)\<rparr>))"
  using assms by (simp add: download_submission_def list_submissions_def Let_def)

lemma download_submission_success:
  assumes "download_submission self ontology version dest_dir w = (Inr (p, rv), w1)"
  shows "\<exists>submissions sub sid.
           catalog w (length (calls w)) ontology = Some submissions
           \<and> select_submission ontology version submissions = Inr sub
           \<and> submissionId sub = Some sid \<and> sid \<noteq> 0"
proof (cases "catalog w (length (calls w)) ontology")
  case None
  with assms show ?thesis by (simp add: download_submission_def list_submissions_def)
next
  case (Some submissions)
  show ?thesis
  proof (cases "select_submission ontology version submissions")
    case (Inl e)
    with assms Some show ?thesis by (simp add: download_submission_def list_submissions_def)
  next
    case (Inr sub)
    show ?thesis
    proof (cases "submissionId sub")
      case None
      with assms Some Inr show ?thesis by (simp add: download_submission_def list_submissions_def Let_def)
    next
      case sid: (Some sid)
      show ?thesis
      proof (cases "sid = 0")
        case True
        with assms Some Inr sid show ?thesis by (simp add: download_submission_def list_submissions_def Let_def)
      next
        case False
        with Some Inr sid show ?thesis by simp
      qed
    qed
  qed
qed

section \<open>The cache of downloads\<close>

lemma fetch_artifact_success:
  assumes "fetch_artifact self ontology sid rv p w = (Inr (p', rv'), w1)"
  shows "p' = p \<and> rv' = rv \<and> files w1 p = Some (the (files w1 p)) \<and> files w1 p \<noteq> None
         \<and> calls w1 = calls w @ [Download (final_url self (download_url self ontology sid))]
         \<and> dirs w1 = dirs w \<and> catalog w1 = catalog w"
  using assms
  by (auto simp: fetch_artifact_def Let_def split: option.splits if_splits)


lemma dest_path_not_dir: "dest_path dest_dir ontology rv \<noteq> dest_dir"
  by (simp add: dest_path_def)

lemma downloads_append_list [simp]:
  "downloads (w\<lparr>calls := calls w @ [ListSubmissions ontology]\<rparr>) = downloads w"
  by (simp add: downloads_def)

text \<open>
  C7. When a first call of \<open>download_submission\<close> has returned and the service lists
  the same submissions again, a second call with the same ontology and version returns
  the same path and resolved version, its only remote operation being the listing of the
  submissions: the file is found at the path computed from the ontology and the
  resolved version. When that path did not exist before the first call, the first call
  wrote the file and the two calls together performed exactly one download.
\<close>

theorem download_submission_twice:
  assumes first: "download_submission self ontology version dest_dir w = (Inr (p, rv), w1)"
    and stable: "catalog w (length (calls w1)) ontology = catalog w (length (calls w)) ontology"
  shows "download_submission self ontology version dest_dir w1
           = (Inr (p, rv), w1\<lparr>calls := calls w1 @ [ListSubmissions ontology],
                               dirs := insert dest_dir (dirs w1),
                               last_download_url := Some (''(cached) '' @ p)\<rparr>)
         \<and> p = dest_path dest_dir ontology rv
         \<and> path_exists w1 p
         \<and> (\<not> path_exists w p \<longrightarrow>
               files w1 p \<noteq> None
               \<and> downloads w1 = downloads w + 1
               \<and> downloads (snd (download_submission self ontology version dest_dir w1))
                    = downloads w + 1)"
proof -
  from download_submission_success [OF first] obtain submissions sub sid where
    cat: "catalog w (length (calls w)) ontology = Some submissions"
    and sel: "select_submission ontology version submissions = Inr sub"
    and sid: "submissionId sub = Some sid" "sid \<noteq> 0"
    by blast
  define rv0 where "rv0 = str_or (sub_version sub) ''latest''"
  define p0 where "p0 = dest_path dest_dir ontology rv0"
  define w2 where "w2 = w\<lparr>calls := calls w @ [ListSubmissions ontology], dirs := insert dest_dir (dirs w)\<rparr>"
  have unfold1: "download_submission self ontology version dest_dir w =
      (if path_exists w2 p0
       then (Inr (p0, rv0), w2\<lparr>last_download_url := Some (''(cached) '' @ p0)\<rparr>)
       else fetch_artifact self ontology sid rv0 p0 w2)"
    unfolding rv0_def p0_def w2_def
    by (rule download_submission_unfold [OF cat sel sid])
  have facts: "p = p0 \<and> rv = rv0 \<and> path_exists w1 p0 \<and> catalog w1 = catalog w
      \<and> (\<not> path_exists w p0 \<longrightarrow> files w1 p0 \<noteq> None \<and> downloads w1 = downloads w + 1)"
  proof (cases "path_exists w2 p0")
    case True
    with unfold1 have u: "download_submission self ontology version dest_dir w
        = (Inr (p0, rv0), w2\<lparr>last_download_url := Some (''(cached) '' @ p0)\<rparr>)"
      by simp
    from first [unfolded u]
    have eq: "p = p0" "rv = rv0" "w1 = w2\<lparr>last_download_url := Some (''(cached) '' @ p0)\<rparr>"
      by auto
    from True have "path_exists w p0"
      using dest_path_not_dir [of dest_dir ontology rv0]
      by (simp add: path_exists_def w2_def p0_def)
    with True eq show ?thesis by (simp add: path_exists_def w2_def)
  next
    case False
    with first unfold1 have f: "fetch_artifact self ontology sid rv0 p0 w2 = (Inr (p, rv), w1)"
      by simp
    from fetch_artifact_success [OF f] have
      "p = p0" "rv = rv0" "files w1 p0 \<noteq> None"
      "calls w1 = calls w2 @ [Download (final_url self (download_url self ontology sid))]"
      "catalog w1 = catalog w2"
      by simp_all
    then show ?thesis
      by (simp add: path_exists_def w2_def downloads_def)
  qed
  then have pe: "p = p0" "rv = rv0" "path_exists w1 p0" "catalog w1 = catalog w" by simp_all
  from pe stable cat have cat1: "catalog w1 (length (calls w1)) ontology = Some submissions"
    by simp
  have pe2: "path_exists (w1\<lparr>calls := calls w1 @ [ListSubmissions ontology],
                dirs := insert dest_dir (dirs w1)\<rparr>) p0"
    using pe(3) by (auto simp: path_exists_def)
  have second: "download_submission self ontology version dest_dir w1
           = (Inr (p0, rv0), w1\<lparr>calls := calls w1 @ [ListSubmissions ontology],
                               dirs := insert dest_dir (dirs w1),
                               last_download_url := Some (''(cached) '' @ p0)\<rparr>)"
    using download_submission_unfold [OF cat1 sel sid, of self dest_dir] pe2
    by (simp add: rv0_def p0_def)
  have d2: "downloads (snd (download_submission self ontology version dest_dir w1)) = downloads w1"
    by (simp add: second downloads_def)
  from facts second d2 show ?thesis
    by (simp add: p0_def)
qed

lemma first_download_result:
  "fst (download_submission (tagger_client tg) ''CL'' (Some ''2023-01-01'') ''downloads'' w0)
     = Inr (''downloads/CL_2023-01-01.owl'', ''2023-01-01'')"
  by (simp add: ev_client ev_world ev_strings Let_def)

theorem download_submission_twice_witness:
  "download_submission (tagger_client tg) ''CL'' (Some ''2023-01-01'') ''downloads'' w0
     = (Inr (''downloads/CL_2023-01-01.owl'', ''2023-01-01''), w_downloaded)
   \<and> \<not> path_exists w0 ''downloads/CL_2023-01-01.owl''
   \<and> fst (download_submission (tagger_client tg) ''CL'' (Some ''2023-01-01'') ''downloads''
             w_downloaded)
       = Inr (''downloads/CL_2023-01-01.owl'', ''2023-01-01'')
   \<and> files w_downloaded ''downloads/CL_2023-01-01.owl'' \<noteq> None
   \<and> downloads w0 = 0
   \<and> downloads (snd (download_submission (tagger_client tg) ''CL'' (Some ''2023-01-01'')
                         ''downloads'' w_downloaded)) = 1"
proof -
  have first: "download_submission (tagger_client tg) ''CL'' (Some ''2023-01-01'') ''downloads'' w0
     = (Inr (''downloads/CL_2023-01-01.owl'', ''2023-01-01''), w_downloaded)"
    unfolding w_downloaded_def using first_download_result
    by (cases "download_submission (tagger_client tg) ''CL'' (Some ''2023-01-01'') ''downloads'' w0")
       simp
  have stable: "catalog w0 (length (calls w_downloaded)) ''CL'' = catalog w0 (length (calls w0)) ''CL''"
    by (simp add: w0_def)
  have fresh: "\<not> path_exists w0 ''downloads/CL_2023-01-01.owl''"
    by (simp add: path_exists_def w0_def)
  have zero: "downloads w0 = 0"
    by (simp add: downloads_def w0_def)
  note twice = download_submission_twice [OF first stable]
  from twice have second:
    "fst (download_submission (tagger_client tg) ''CL'' (Some ''2023-01-01'') ''downloads''
            w_downloaded)
       = Inr (''downloads/CL_2023-01-01.owl'', ''2023-01-01'')"
    by (simp only: fst_conv)
  from twice fresh have written: "files w_downloaded ''downloads/CL_2023-01-01.owl'' \<noteq> None"
    by blast
  from twice fresh have "downloads (snd (download_submission (tagger_client tg) ''CL''
            (Some ''2023-01-01'') ''downloads'' w_downloaded)) = downloads w0 + 1"
    by blast
  with zero have once: "downloads (snd (download_submission (tagger_client tg) ''CL''
            (Some ''2023-01-01'') ''downloads'' w_downloaded)) = 1"
    by (simp only: add_0)
  from first fresh second written zero once show ?thesis
    by (intro conjI)
qed

section \<open>A requested version that no submission has\<close>

text \<open>
  C2, as amended. When the normalized term sequence is not empty, the submissions have
  been listed, and the requested version is the version string of none of them, then
  under the strict policy (\<open>on_version_missing\<close> other than \<open>latest\<close>, so \<open>error\<close>
  in particular) the call ends with \<open>OntologyVersionNotFound\<close> carrying the ontology,
  the requested version and the version string of every submission; no outcome is
  produced, and the listing is the only remote operation.
\<close>

theorem strict_missing_version_raises:
  assumes "normalize_terms terms file_path w = Inr ts" and "ts \<noteq> []"
    and "catalog w (length (calls w)) ontology = Some submissions"
    and "v \<noteq> []" and "v \<notin> set (available_versions submissions)"
    and "ovm \<noteq> ''latest''"
  shows "annotate_terms self ontology terms file_path (Some v) ovm w
           = (Inl (OntologyVersionNotFound ontology v (available_versions submissions)),
              w\<lparr>calls := calls w @ [ListSubmissions ontology]\<rparr>)"
  using assms
  by (simp add: annotate_terms_def list_submissions_def resolve_version_def matches_empty_iff)

theorem strict_missing_version_raises_witness:
  "normalize_terms (Some [Some ''cell'', Some ''unicorn horn'']) None w0
     = Inr [''cell'', ''unicorn horn'']
   \<and> catalog w0 (length (calls w0)) ''CL'' = Some cl_submissions
   \<and> ''9999'' \<notin> set (available_versions cl_submissions)
   \<and> annotate_terms tg ''CL'' (Some [Some ''cell'', Some ''unicorn horn'']) None (Some ''9999'')
         ''error'' w0
       = (Inl (OntologyVersionNotFound ''CL'' ''9999'' [''2024-01-01'', ''2023-01-01'']),
          w0\<lparr>calls := [ListSubmissions ''CL'']\<rparr>)"
proof -
  have ne: "[''cell'', ''unicorn horn''] \<noteq> []" by simp
  have cat: "catalog w0 (length (calls w0)) ''CL'' = Some cl_submissions"
    by (simp add: w0_def)
  have v: "''9999'' \<noteq> []" by simp
  have missing: "''9999'' \<notin> set (available_versions cl_submissions)"
    by (simp add: available_versions_def version_string_def str_or_def cl_submissions_def)
  have strict: "''error'' \<noteq> ''latest''" by simp
  have av: "available_versions cl_submissions = [''2024-01-01'', ''2023-01-01'']"
    by (simp add: available_versions_def version_string_def str_or_def cl_submissions_def)
  have tr: "calls w0 @ [ListSubmissions ''CL''] = [ListSubmissions ''CL'']"
    by (simp add: w0_def)
  from strict_missing_version_raises [OF normalize_two_terms ne cat v missing strict, of tg]
  have "annotate_terms tg ''CL'' (Some [Some ''cell'', Some ''unicorn horn'']) None (Some ''9999'')
         ''error'' w0
       = (Inl (OntologyVersionNotFound ''CL'' ''9999'' [''2024-01-01'', ''2023-01-01'']),
          w0\<lparr>calls := [ListSubmissions ''CL'']\<rparr>)"
    by (simp only: av tr)
  with normalize_two_terms cat missing show ?thesis
    by (intro conjI)
qed

text \<open>With terms that normalize to nothing the same request returns the empty sequence.\<close>

theorem strict_missing_version_counterexample:
  "catalog w0 (length (calls w0)) ''CL'' = Some cl_submissions
   \<and> ''9999'' \<notin> set (available_versions cl_submissions)
   \<and> annotate_terms tg ''CL'' (Some [Some '' '', None]) None (Some ''9999'') ''error'' w0
       = (Inr [], w0)"
proof (intro conjI)
  show "catalog w0 (length (calls w0)) ''CL'' = Some cl_submissions"
    by (simp add: w0_def)
  show "''9999'' \<notin> set (available_versions cl_submissions)"
    by (simp add: available_versions_def version_string_def str_or_def cl_submissions_def)
  show "annotate_terms tg ''CL'' (Some [Some '' '', None]) None (Some ''9999'') ''error'' w0
       = (Inr [], w0)"
    by (simp add: annotate_terms_def normalize_blank_terms)
qed

section \<open>An ontology without submissions\<close>

text \<open>
  C8, as amended. When the submission list returned for the ontology is empty,
  \<open>download_submission\<close> fails with \<open>OntologyVersionNotFound\<close>, the error it also raises
  for a requested version absent from a non-empty list, carrying the ontology, the
  requested version (\<open>latest\<close> when none was requested) and an empty list of available
  versions; the listing is its only remote operation.
\<close>

theorem download_submission_no_submissions:
  assumes "catalog w (length (calls w)) ontology = Some []"
  shows "download_submission self ontology version dest_dir w
           = (Inl (OntologyVersionNotFound ontology (str_or version ''latest'') []),
              w\<lparr>calls := calls w @ [ListSubmissions ontology]\<rparr>)"
  using assms
  by (simp add: download_submission_def list_submissions_def select_submission_def)

theorem download_submission_no_submissions_witness:
  "catalog w_empty (length (calls w_empty)) ''CL'' = Some []
   \<and> download_submission (tagger_client tg) ''CL'' (Some ''2023-01-01'') ''downloads'' w_empty
       = (Inl (OntologyVersionNotFound ''CL'' ''2023-01-01'' []),
          w_empty\<lparr>calls := [ListSubmissions ''CL'']\<rparr>)"
proof -
  have cat: "catalog w_empty (length (calls w_empty)) ''CL'' = Some []"
    by (simp add: w_empty_def)
  have tr: "calls w_empty @ [ListSubmissions ''CL''] = [ListSubmissions ''CL'']"
    by (simp add: w_empty_def w0_def)
  have s: "str_or (Some ''2023-01-01'') ''latest'' = ''2023-01-01''"
    by (simp add: str_or_def)
  from download_submission_no_submissions [OF cat, of "tagger_client tg" "Some ''2023-01-01''" "''downloads''"]
  have "download_submission (tagger_client tg) ''CL'' (Some ''2023-01-01'') ''downloads'' w_empty
       = (Inl (OntologyVersionNotFound ''CL'' ''2023-01-01'' []),
          w_empty\<lparr>calls := [ListSubmissions ''CL'']\<rparr>)"
    by (simp only: tr s)
  with cat show ?thesis by (intro conjI)
qed

text \<open>The error raised for an empty list is the one raised for a missing version.\<close>

theorem download_submission_no_submissions_counterexample:
  "fst (download_submission (tagger_client tg) ''CL'' None ''downloads'' w_empty)
     = Inl (OntologyVersionNotFound ''CL'' ''latest'' [])
   \<and> fst (download_submission (tagger_client tg) ''CL'' (Some ''9999'') ''downloads'' w0)
     = Inl (OntologyVersionNotFound ''CL'' ''9999'' [''2024-01-01'', ''2023-01-01''])"
  by (simp add: ev_client ev_world ev_strings)

section \<open>How often the submissions are listed\<close>

lemma list_requests_append_annotations [simp]:
  "list_requests (w\<lparr>calls := calls w @ map (\<lambda>t. AnnotateText t ontology) ts\<rparr>) = list_requests w"
  by (simp add: list_requests_def filter_empty_conv [THEN iffD2])

lemma annotate_loop_list_requests:
  assumes "annotate_loop ontology version ovm res latest ts outs w = (r, w')"
  shows "list_requests w' = list_requests w"
proof -
  from annotate_loop_trace [OF assms] obtain k where
    "w' = w\<lparr>calls := calls w @ map (\<lambda>t. AnnotateText t ontology) (take k ts)\<rparr>" by blast
  then show ?thesis by simp
qed

lemma fetch_artifact_list_requests:
  "fetch_artifact self ontology sid rv p w = (r, w') \<Longrightarrow> list_requests w' = list_requests w"
  by (auto simp: fetch_artifact_def Let_def list_requests_def split: option.splits if_splits)

lemma download_submission_list_requests:
  assumes "download_submission self ontology version dest_dir w = (r, w')"
  shows "list_requests w' = list_requests w + 1"
proof (cases "catalog w (length (calls w)) ontology")
  case None
  with assms show ?thesis
    by (auto simp: download_submission_def list_submissions_def list_requests_def)
next
  case (Some submissions)
  show ?thesis
  proof (cases "select_submission ontology version submissions")
    case (Inl e)
    with assms Some show ?thesis
      by (auto simp: download_submission_def list_submissions_def list_requests_def)
  next
    case (Inr sub)
    show ?thesis
    proof (cases "submissionId sub")
      case None
      with assms Some Inr show ?thesis
        by (auto simp: download_submission_def list_submissions_def list_requests_def)
    next
      case sid: (Some sid)
      show ?thesis
      proof (cases "sid = 0")
        case True
        with assms Some Inr sid show ?thesis
          by (auto simp: download_submission_def list_submissions_def list_requests_def)
      next
        case False
        note u = download_submission_unfold [OF Some Inr sid False, of self dest_dir]
        show ?thesis
        proof (cases "path_exists (w\<lparr>calls := calls w @ [ListSubmissions ontology], dirs := insert dest_dir (dirs w)\<rparr>)
           (dest_path dest_dir ontology (str_or (sub_version sub) ''latest''))")
          case True
          with assms u show ?thesis by (auto simp: list_requests_def)
        next
          case False
          with assms u have "fetch_artifact self ontology sid (str_or (sub_version sub) ''latest'')
             (dest_path dest_dir ontology (str_or (sub_version sub) ''latest''))
             (w\<lparr>calls := calls w @ [ListSubmissions ontology], dirs := insert dest_dir (dirs w)\<rparr>) = (r, w')"
            by simp
          from fetch_artifact_list_requests [OF this] show ?thesis
            by (simp add: list_requests_def)
        qed
      qed
    qed
  qed
qed

lemma resolve_version_list_requests:
  assumes "resolve_version self ontology version ovm submissions w = (r, w')"
  shows "list_requests w' = list_requests w
           + (if \<exists>v. version = Some v \<and> v \<noteq> [] \<and> v \<in> set (available_versions submissions)
              then 1 else 0)"
proof (cases "\<exists>v. version = Some v \<and> v \<noteq> [] \<and> v \<in> set (available_versions submissions)")
  case False
  with assms show ?thesis
    by (auto simp: resolve_version_def matches_empty_iff split: option.splits if_splits)
next
  case True
  then obtain v where v: "version = Some v" "v \<noteq> []" "matches v submissions \<noteq> []"
    by (auto simp: matches_empty_iff)
  obtain a w1 where d: "download_submission (tagger_client self) ontology (Some v) (downloads_dir self) w = (a, w1)"
    by (cases "download_submission (tagger_client self) ontology (Some v) (downloads_dir self) w")
  from assms v d have "w' = w1"
    by (auto simp: resolve_version_def split: sum.splits prod.splits)
  with download_submission_list_requests [OF d] True show ?thesis by simp
qed


lemma evaluate_term_latest:
  assumes "comment (evaluate_term trm annotations version ovm res latest) \<in> latest_comments"
  shows "ontology_version (evaluate_term trm annotations version ovm res latest) = Some latest"
  using assms
  by (simp add: evaluate_term_def latest_comments_def Let_def split: list.splits prod.splits if_splits)

lemma annotate_loop_outcomes:
  "annotate_loop ontology version ovm res latest ts outs w = (Inr r, w')
     \<Longrightarrow> \<forall>out \<in> set r. out \<in> set outs
            \<or> (\<exists>trm annotations. out = evaluate_term trm annotations version ovm res latest)"
proof (induction ts arbitrary: outs w)
  case Nil
  then show ?case by simp
next
  case (Cons t ts)
  obtain a w1 where step: "annotate_text t ontology w = (a, w1)"
    by (cases "annotate_text t ontology w")
  show ?case
  proof (cases a)
    case (Inl e)
    with Cons.prems step show ?thesis by simp
  next
    case (Inr annotations)
    with Cons.prems step have rest: "annotate_loop ontology version ovm res latest ts
                 (outs @ [evaluate_term t annotations version ovm res latest]) w1 = (Inr r, w')"
      by simp
    from Cons.IH [OF rest] show ?thesis by auto
  qed
qed

text \<open>
  C9, as amended. In one \<open>annotate_terms\<close> invocation that gets past the empty-input
  guard, the submissions are listed once by \<open>annotate_terms\<close> itself, never once per
  term, and a second time, inside \<open>download_submission\<close>, exactly when a version was
  requested and the first listing has it. Every outcome reported against the latest
  version carries the version string of the first submission of the first listing, or
  \<open>latest\<close> when that list is empty or its first submission has no version string.
\<close>

theorem list_submissions_requests:
  assumes norm: "normalize_terms terms file_path w = Inr ts" and ne: "ts \<noteq> []"
    and run: "annotate_terms self ontology terms file_path version ovm w = (r, w')"
  shows "list_requests w' = list_requests w
           + (if \<exists>v submissions. version = Some v \<and> v \<noteq> []
                    \<and> catalog w (length (calls w)) ontology = Some submissions
                    \<and> v \<in> set (available_versions submissions)
              then 2 else 1)
         \<and> (\<forall>submissions outs out.
               catalog w (length (calls w)) ontology = Some submissions \<and> r = Inr outs
               \<and> out \<in> set outs \<and> comment out \<in> latest_comments
               \<longrightarrow> ontology_version out
                     = Some (case submissions of
                               [] \<Rightarrow> ''latest''
                             | first # _ \<Rightarrow>
                                 (case sub_version first of
                                    None \<Rightarrow> ''latest''
                                  | Some x \<Rightarrow> if x = [] then ''latest'' else x)))"
proof (cases "catalog w (length (calls w)) ontology")
  case None
  with norm ne run have "w' = w\<lparr>calls := calls w @ [ListSubmissions ontology]\<rparr>"
    by (auto simp: annotate_terms_def list_submissions_def)
  with None show ?thesis by (simp add: list_requests_def)
next
  case (Some submissions)
  define w1 where "w1 = w\<lparr>calls := calls w @ [ListSubmissions ontology]\<rparr>"
  have l1: "list_requests w1 = list_requests w + 1"
    by (simp add: w1_def list_requests_def)
  obtain b w2 where rv: "resolve_version self ontology version ovm submissions w1 = (b, w2)"
    by (cases "resolve_version self ontology version ovm submissions w1")
  note l2 = resolve_version_list_requests [OF rv]
  have latest_eq: "latest_version_of submissions
      = (case submissions of [] \<Rightarrow> ''latest''
         | first # _ \<Rightarrow> (case sub_version first of None \<Rightarrow> ''latest''
                           | Some x \<Rightarrow> if x = [] then ''latest'' else x))"
    by (simp add: latest_version_of_def str_or_def split: list.splits)
  show ?thesis
  proof (cases b)
    case (Inl e)
    with norm ne run Some rv have "w' = w2" "r = Inl e"
      by (auto simp: annotate_terms_def list_submissions_def w1_def)
    with l1 l2 Some show ?thesis by auto
  next
    case (Inr res)
    with norm ne run Some rv have loop:
      "annotate_loop ontology version ovm res (latest_version_of submissions) ts [] w2 = (r, w')"
      by (simp add: annotate_terms_def list_submissions_def w1_def)
    from annotate_loop_list_requests [OF loop] l1 l2 Some
    have count: "list_requests w' = list_requests w
           + (if \<exists>v submissions. version = Some v \<and> v \<noteq> []
                    \<and> catalog w (length (calls w)) ontology = Some submissions
                    \<and> v \<in> set (available_versions submissions)
              then 2 else 1)"
      by auto
    have "\<forall>outs out. r = Inr outs \<and> out \<in> set outs \<and> comment out \<in> latest_comments
               \<longrightarrow> ontology_version out = Some (latest_version_of submissions)"
    proof (intro allI impI)
      fix outs out
      assume h: "r = Inr outs \<and> out \<in> set outs \<and> comment out \<in> latest_comments"
      with loop have "annotate_loop ontology version ovm res (latest_version_of submissions) ts [] w2
                        = (Inr outs, w')" by simp
      from annotate_loop_outcomes [OF this] h obtain trm annotations where
        "out = evaluate_term trm annotations version ovm res (latest_version_of submissions)"
        by auto
      with h evaluate_term_latest show "ontology_version out = Some (latest_version_of submissions)"
        by blast
    qed
    with count Some show ?thesis
      by (simp add: latest_eq)
  qed
qed

lemma run_latest_outcomes:
  "fst (annotate_terms tg ''CL'' (Some [Some ''cell'']) None None ''error'' w0) =
   Inr [\<lparr>input_text = ''cell'', standardized_term = Some ''cell'',
          ontology_id = Some ''CL_0000001'', ontology_version = Some ''2024-01-01'',
          comment = ''matched in latest''\<rparr>]"
  by (simp add: ev_tagger ev_client ev_world ev_strings)

theorem list_submissions_requests_witness:
  "normalize_terms (Some [Some ''cell'']) None w0 = Inr [''cell'']
   \<and> catalog w0 (length (calls w0)) ''CL'' = Some cl_submissions
   \<and> fst (annotate_terms tg ''CL'' (Some [Some ''cell'']) None None ''error'' w0)
       = Inr [\<lparr>input_text = ''cell'', standardized_term = Some ''cell'',
               ontology_id = Some ''CL_0000001'', ontology_version = Some ''2024-01-01'',
               comment = ''matched in latest''\<rparr>]
   \<and> ''matched in latest'' \<in> latest_comments
   \<and> list_requests (snd (annotate_terms tg ''CL'' (Some [Some ''cell'']) None None ''error'' w0))
       = list_requests w0 + 1
   \<and> Some ''2024-01-01''
       = Some (case cl_submissions of
                 [] \<Rightarrow> ''latest''
               | first # _ \<Rightarrow>
                   (case sub_version first of
                      None \<Rightarrow> ''latest''
                    | Some x \<Rightarrow> if x = [] then ''latest'' else x))"
proof -
  define out where "out = \<lparr>input_text = ''cell'', standardized_term = Some ''cell'',
          ontology_id = Some ''CL_0000001'', ontology_version = Some ''2024-01-01'',
          comment = ''matched in latest''\<rparr>"
  have norm: "normalize_terms (Some [Some ''cell'']) None w0 = Inr [''cell'']"
    by (simp add: normalize_terms_def ev_strings)
  have ne: "[''cell''] \<noteq> []" by simp
  have cat: "catalog w0 (length (calls w0)) ''CL'' = Some cl_submissions"
    by (simp add: w0_def)
  have res: "fst (annotate_terms tg ''CL'' (Some [Some ''cell'']) None None ''error'' w0) = Inr [out]"
    unfolding out_def by (rule run_latest_outcomes)
  then have run: "annotate_terms tg ''CL'' (Some [Some ''cell'']) None None ''error'' w0
      = (Inr [out], snd (annotate_terms tg ''CL'' (Some [Some ''cell'']) None None ''error'' w0))"
    by (cases "annotate_terms tg ''CL'' (Some [Some ''cell'']) None None ''error'' w0") simp
  have c: "''matched in latest'' \<in> latest_comments"
    by (simp add: latest_comments_def)
  then have c': "comment out \<in> latest_comments" by (simp add: out_def)
  have mem: "out \<in> set [out]" by simp
  note t = list_submissions_requests [OF norm ne run]
  from t have count:
    "list_requests (snd (annotate_terms tg ''CL'' (Some [Some ''cell'']) None None ''error'' w0))
       = list_requests w0 + 1"
    by simp
  from t cat mem c' have "ontology_version out
       = Some (case cl_submissions of
                 [] \<Rightarrow> ''latest''
               | first # _ \<Rightarrow>
                   (case sub_version first of
                      None \<Rightarrow> ''latest''
                    | Some x \<Rightarrow> if x = [] then ''latest'' else x))"
    by blast
  then have v: "Some ''2024-01-01''
       = Some (case cl_submissions of
                 [] \<Rightarrow> ''latest''
               | first # _ \<Rightarrow>
                   (case sub_version first of
                      None \<Rightarrow> ''latest''
                    | Some x \<Rightarrow> if x = [] then ''latest'' else x))"
    by (simp add: out_def)
  from norm cat run_latest_outcomes c count v show ?thesis
    by (intro conjI)
qed

text \<open>With the requested version found, the submissions are listed twice.\<close>

theorem list_submissions_requests_counterexample:
  "list_requests w0 = 0
   \<and> list_requests (snd (annotate_terms tg ''CL'' (Some [Some ''cell'', Some ''unicorn horn''])
                            None (Some ''2023-01-01'') ''error'' w0)) = 2"
  by (simp add: list_requests_def run_found_calls) (simp add: w0_def)

section \<open>Falling back to the latest version\<close>

lemma evaluate_term_fallback_comment:
  assumes "truthy version" and "version_fallback res"
  shows "comment (evaluate_term trm annotations version ovm res latest)
           = (if annotations = [] then ''not matched at all''
              else ''requested version missing; matched in latest'')"
  using assms
  by (simp add: evaluate_term_def Let_def split: list.splits prod.splits)

text \<open>
  C3, as amended. With a requested version that is the version string of no submission
  and \<open>on_version_missing = latest\<close>, a call whose listing and annotation requests
  are all answered returns one outcome per term; its remote operations are the one
  listing and one annotation request per term, and no file is written, so no release is
  downloaded and no lexicon built. The comment of an outcome is
  \<open>requested version missing; matched in latest\<close> when the service returned a
  candidate for its term and \<open>not matched at all\<close> when it returned none.
\<close>

theorem permissive_missing_version:
  assumes norm: "normalize_terms terms file_path w = Inr ts"
    and cat: "catalog w (length (calls w)) ontology = Some submissions"
    and v: "v \<noteq> []" "v \<notin> set (available_versions submissions)"
    and len: "length answers = length ts"
    and answered: "\<forall>i < length ts.
         annotator w (length (calls w) + 1 + i) (ts ! i) ontology = Some (answers ! i)"
  shows "\<exists>outs w'.
           annotate_terms self ontology terms file_path (Some v) ''latest'' w = (Inr outs, w')
           \<and> length outs = length ts
           \<and> (\<forall>i < length ts.
                 comment (outs ! i)
                   = (if answers ! i = [] then ''not matched at all''
                      else ''requested version missing; matched in latest''))
           \<and> calls w' = calls w @ (if ts = [] then []
                                    else ListSubmissions ontology
                                           # map (\<lambda>t. AnnotateText t ontology) ts)
           \<and> files w' = files w"
proof (cases "ts = []")
  case True
  with norm have "annotate_terms self ontology terms file_path (Some v) ''latest'' w = (Inr [], w)"
    by (simp add: annotate_terms_def)
  with True show ?thesis by simp
next
  case False
  define w1 where "w1 = w\<lparr>calls := calls w @ [ListSubmissions ontology]\<rparr>"
  define res where "res = \<lparr>resolved_version = None, owl_lexicon = None, version_fallback = True\<rparr>"
  define outs where "outs = map2 (\<lambda>t a. evaluate_term t a (Some v) ''latest'' res
                                     (latest_version_of submissions)) ts answers"
  have answered1: "\<forall>i < length ts.
         annotator w1 (length (calls w1) + i) (ts ! i) ontology = Some (answers ! i)"
    using answered by (simp add: w1_def)
  have loop: "annotate_loop ontology (Some v) ''latest'' res (latest_version_of submissions) ts [] w1
           = (Inr outs, w1\<lparr>calls := calls w1 @ map (\<lambda>t. AnnotateText t ontology) ts\<rparr>)"
    using annotate_loop_answered [OF len answered1, of "Some v" "''latest''" res
             "latest_version_of submissions" "[]"]
    by (simp add: outs_def)
  have run: "annotate_terms self ontology terms file_path (Some v) ''latest'' w
           = (Inr outs, w1\<lparr>calls := calls w1 @ map (\<lambda>t. AnnotateText t ontology) ts\<rparr>)"
    using norm False cat v loop
    by (simp add: annotate_terms_def list_submissions_def resolve_version_def matches_empty_iff
          w1_def res_def)
  have l: "length outs = length ts" by (simp add: outs_def len)
  have c: "\<forall>i < length ts.
                 comment (outs ! i)
                   = (if answers ! i = [] then ''not matched at all''
                      else ''requested version missing; matched in latest'')"
    using v(1) len
    by (simp add: outs_def evaluate_term_fallback_comment truthy_def res_def)
  from run l c False show ?thesis
    by (simp add: w1_def)
qed

theorem permissive_missing_version_witness:
  "normalize_terms (Some [Some ''cell'', Some ''unicorn horn'']) None w0
     = Inr [''cell'', ''unicorn horn'']
   \<and> catalog w0 (length (calls w0)) ''CL'' = Some cl_submissions
   \<and> ''9999'' \<notin> set (available_versions cl_submissions)
   \<and> (\<exists>outs w'.
         annotate_terms tg ''CL'' (Some [Some ''cell'', Some ''unicorn horn'']) None (Some ''9999'')
           ''latest'' w0 = (Inr outs, w')
         \<and> length outs = 2
         \<and> comment (outs ! 0) = ''requested version missing; matched in latest''
         \<and> comment (outs ! 1) = ''not matched at all''
         \<and> calls w' = [ListSubmissions ''CL'', AnnotateText ''cell'' ''CL'',
                        AnnotateText ''unicorn horn'' ''CL''])"
proof -
  have cat: "catalog w0 (length (calls w0)) ''CL'' = Some cl_submissions"
    by (simp add: w0_def)
  have v: "''9999'' \<noteq> []" by simp
  have missing: "''9999'' \<notin> set (available_versions cl_submissions)"
    by (simp add: available_versions_def version_string_def str_or_def cl_submissions_def)
  have len: "length [[cell_annotation], []] = length [''cell'', ''unicorn horn'']" by simp
  have answered: "\<forall>i < length [''cell'', ''unicorn horn''].
         annotator w0 (length (calls w0) + 1 + i) ([''cell'', ''unicorn horn''] ! i) ''CL''
           = Some ([[cell_annotation], []] ! i)"
    by (auto simp: w0_def cl_annotator_def less_Suc_eq)
  from permissive_missing_version [OF normalize_two_terms cat v missing len answered, of tg]
  obtain outs w' where r:
    "annotate_terms tg ''CL'' (Some [Some ''cell'', Some ''unicorn horn'']) None (Some ''9999'')
        ''latest'' w0 = (Inr outs, w')"
    "length outs = length [''cell'', ''unicorn horn'']"
    "\<forall>i < length [''cell'', ''unicorn horn''].
        comment (outs ! i)
          = (if [[cell_annotation], []] ! i = [] then ''not matched at all''
             else ''requested version missing; matched in latest'')"
    "calls w' = calls w0 @ (if [''cell'', ''unicorn horn''] = [] then []
                            else ListSubmissions ''CL''
                                   # map (\<lambda>t. AnnotateText t ''CL'') [''cell'', ''unicorn horn''])"
    by blast
  from r(2) have l: "length outs = 2" by simp
  from r(3) have "comment (outs ! 0)
          = (if [[cell_annotation], []] ! 0 = [] then ''not matched at all''
             else ''requested version missing; matched in latest'')"
    by simp
  then have c0: "comment (outs ! 0) = ''requested version missing; matched in latest''"
    by simp
  from r(3) have "comment (outs ! 1)
          = (if [[cell_annotation], []] ! 1 = [] then ''not matched at all''
             else ''requested version missing; matched in latest'')"
    by simp
  then have c1: "comment (outs ! 1) = ''not matched at all''"
    by simp
  from r(4) have tr: "calls w' = [ListSubmissions ''CL'', AnnotateText ''cell'' ''CL'',
                        AnnotateText ''unicorn horn'' ''CL'']"
    by (simp add: w0_def)
  have "\<exists>outs w'.
         annotate_terms tg ''CL'' (Some [Some ''cell'', Some ''unicorn horn'']) None (Some ''9999'')
           ''latest'' w0 = (Inr outs, w')
         \<and> length outs = 2
         \<and> comment (outs ! 0) = ''requested version missing; matched in latest''
         \<and> comment (outs ! 1) = ''not matched at all''
         \<and> calls w' = [ListSubmissions ''CL'', AnnotateText ''cell'' ''CL'',
                        AnnotateText ''unicorn horn'' ''CL'']"
    using r(1) l c0 c1 tr by (intro exI [of _ outs] exI [of _ w'] conjI)
  with normalize_two_terms cat missing show ?thesis by (intro conjI)
qed

text \<open>A term without any candidate is reported as not matched at all, also when the
  requested version is missing and the policy is permissive.\<close>

theorem permissive_missing_version_counterexample:
  "''9999'' \<notin> set (available_versions cl_submissions)
   \<and> fst (annotate_terms tg ''CL'' (Some [Some ''unicorn horn'']) None (Some ''9999'') ''latest'' w0)
       = Inr [\<lparr>input_text = ''unicorn horn'', standardized_term = None, ontology_id = None,
                ontology_version = None, comment = ''not matched at all''\<rparr>]"
  by (simp add: ev_tagger ev_client ev_world ev_strings)

section \<open>Checking a candidate against the release lexicon\<close>

text \<open>A lexicon exists only after a requested version was found and downloaded: the
  version is then true, there is no fallback, and the resolved version is a non-empty
  string.\<close>

lemma str_or_latest_nonempty: "str_or x ''latest'' \<noteq> []"
  by (simp add: str_or_def split: option.splits)

lemma download_submission_resolved_version:
  assumes first: "download_submission self ontology version dest_dir w = (Inr (p, rv), w1)"
  shows "rv \<noteq> []"
proof -
  from download_submission_success [OF first] obtain submissions sub sid where
    cat: "catalog w (length (calls w)) ontology = Some submissions"
    and sel: "select_submission ontology version submissions = Inr sub"
    and sid: "submissionId sub = Some sid" "sid \<noteq> 0"
    by blast
  note u = download_submission_unfold [OF cat sel sid, of self dest_dir]
  show ?thesis
  proof (cases "path_exists (w\<lparr>calls := calls w @ [ListSubmissions ontology],
                                dirs := insert dest_dir (dirs w)\<rparr>)
                  (dest_path dest_dir ontology (str_or (sub_version sub) ''latest''))")
    case True
    with first [unfolded u] have "rv = str_or (sub_version sub) ''latest''" by auto
    then show ?thesis by (simp add: str_or_latest_nonempty)
  next
    case False
    with first [unfolded u] have "fetch_artifact self ontology sid (str_or (sub_version sub) ''latest'')
             (dest_path dest_dir ontology (str_or (sub_version sub) ''latest''))
             (w\<lparr>calls := calls w @ [ListSubmissions ontology], dirs := insert dest_dir (dirs w)\<rparr>)
           = (Inr (p, rv), w1)" by simp
    from fetch_artifact_success [OF this] have "rv = str_or (sub_version sub) ''latest''" by simp
    then show ?thesis by (simp add: str_or_latest_nonempty)
  qed
qed

lemma resolve_version_lexicon:
  assumes rv: "resolve_version self ontology version ovm submissions w = (Inr res, w')"
    and lx: "owl_lexicon res = Some lx"
  shows "truthy version \<and> \<not> version_fallback res
         \<and> (\<exists>r. resolved_version res = Some r \<and> r \<noteq> [])"
proof (cases version)
  case None
  with rv lx show ?thesis by (auto simp: resolve_version_def)
next
  case (Some v)
  show ?thesis
  proof (cases "v = [] \<or> matches v submissions = []")
    case True
    with rv lx Some show ?thesis by (auto simp: resolve_version_def split: if_splits)
  next
    case False
    obtain a w1 where d: "download_submission (tagger_client self) ontology (Some v)
                            (downloads_dir self) w = (a, w1)"
      by (cases "download_submission (tagger_client self) ontology (Some v) (downloads_dir self) w")
    show ?thesis
    proof (cases a)
      case (Inl e)
      with rv Some False d show ?thesis by (simp add: resolve_version_def)
    next
      case (Inr pr)
      obtain p r where pr: "pr = (p, r)" by (cases pr)
      with d Inr have d': "download_submission (tagger_client self) ontology (Some v)
                            (downloads_dir self) w = (Inr (p, r), w1)" by simp
      note ne = download_submission_resolved_version [OF d']
      from rv Some False d' have "\<exists>l. res = \<lparr>resolved_version = Some r, owl_lexicon = Some l,
                            version_fallback = False\<rparr>"
        by (auto simp: resolve_version_def split: sum.splits)
      with ne Some False show ?thesis by (auto simp: truthy_def)
    qed
  qed
qed

lemma verify_in_release_by_id:
  assumes "id_in_release lx top_annotation"
  shows "verify_in_release (Some lx) (candidate_short_id top_annotation)
           (candidate_pref_label top_annotation)
         = (True, get_label_by_id lx (the (candidate_short_id top_annotation)))"
  using assms
  by (auto simp: verify_in_release_def id_in_release_def Let_def split: option.splits)

lemma verify_in_release_by_label:
  assumes "\<not> id_in_release lx top_annotation"
  shows "verify_in_release (Some lx) (candidate_short_id top_annotation)
           (candidate_pref_label top_annotation)
         = (label_in_release lx top_annotation, None)"
  using assms
  by (auto simp: verify_in_release_def id_in_release_def label_in_release_def truthy_def Let_def
           split: option.splits)

text \<open>
  C5. For a term evaluated while a release lexicon exists (so a version was requested
  and found): when the short identifier of the candidate is in the lexicon, the term
  is matched in the specified version whatever its label, and the standardized term is
  the label the lexicon gives for that identifier when it gives one, the live preferred
  label otherwise; when the identifier is absent from the lexicon or the candidate has
  none, the term is matched in the specified version exactly when the live preferred
  label is a label of the lexicon, and the standardized term is then that live label.
\<close>

theorem release_lexicon_checks:
  assumes lx: "owl_lexicon res = Some lx" and v: "truthy version" and nf: "\<not> version_fallback res"
  shows "(\<forall>sid. candidate_short_id top_annotation = Some sid \<and> sid \<noteq> [] \<and> has_id lx sid
            \<longrightarrow> comment (evaluate_term trm (top_annotation # others) version ovm res latest)
                  = ''matched in user specified version''
                \<and> standardized_term (evaluate_term trm (top_annotation # others) version ovm res latest)
                  = (case get_label_by_id lx sid of
                       None \<Rightarrow> candidate_pref_label top_annotation
                     | Some owl_label \<Rightarrow>
                         if owl_label = [] then candidate_pref_label top_annotation
                         else Some owl_label))
         \<and> (\<not> id_in_release lx top_annotation
            \<longrightarrow> (comment (evaluate_term trm (top_annotation # others) version ovm res latest)
                     = ''matched in user specified version'')
                  = label_in_release lx top_annotation
                \<and> (label_in_release lx top_annotation
                     \<longrightarrow> standardized_term
                           (evaluate_term trm (top_annotation # others) version ovm res latest)
                          = candidate_pref_label top_annotation))"
proof (intro conjI allI impI)
  fix sid
  assume h: "candidate_short_id top_annotation = Some sid \<and> sid \<noteq> [] \<and> has_id lx sid"
  then have "id_in_release lx top_annotation" by (simp add: id_in_release_def)
  from verify_in_release_by_id [OF this] h
  have vr: "verify_in_release (Some lx) (candidate_short_id top_annotation)
              (candidate_pref_label top_annotation) = (True, get_label_by_id lx sid)"
    by simp
  show "comment (evaluate_term trm (top_annotation # others) version ovm res latest)
          = ''matched in user specified version''"
    using lx v nf by (simp add: evaluate_term_def vr Let_def)
  show "standardized_term (evaluate_term trm (top_annotation # others) version ovm res latest)
          = (case get_label_by_id lx sid of
               None \<Rightarrow> candidate_pref_label top_annotation
             | Some owl_label \<Rightarrow>
                 if owl_label = [] then candidate_pref_label top_annotation else Some owl_label)"
    using lx v nf by (simp add: evaluate_term_def vr Let_def truthy_def split: option.splits)
next
  assume "\<not> id_in_release lx top_annotation"
  note vr = verify_in_release_by_label [OF this]
  show "(comment (evaluate_term trm (top_annotation # others) version ovm res latest)
           = ''matched in user specified version'')
        = label_in_release lx top_annotation"
    using lx v nf by (simp add: evaluate_term_def vr Let_def)
  assume "label_in_release lx top_annotation"
  then show "standardized_term (evaluate_term trm (top_annotation # others) version ovm res latest)
          = candidate_pref_label top_annotation"
    using lx v nf by (simp add: evaluate_term_def vr Let_def truthy_def)
qed

lemma cl_lexicon_ids: "ids cl_lexicon = {''cl_0000001''} \<and> labels cl_lexicon = {''cell''}
    \<and> id_to_label cl_lexicon = [''cl_0000001'' \<mapsto> ''cell'']"
  by (simp add: cl_lexicon_def cl_graph_def ev_lexicon ev_strings Let_def)

lemma cell_in_release:
  "candidate_short_id cell_annotation = Some ''CL_0000001'' \<and> has_id cl_lexicon ''CL_0000001''
   \<and> get_label_by_id cl_lexicon ''CL_0000001'' = Some ''cell''"
  by (simp add: candidate_short_id_def cell_annotation_def has_id_def get_label_by_id_def
        cl_lexicon_ids ev_strings)

lemma label_only_in_release:
  "\<not> id_in_release cl_lexicon label_only_annotation
   \<and> label_in_release cl_lexicon label_only_annotation
   \<and> candidate_pref_label label_only_annotation = Some ''Cell''"
  by (simp add: id_in_release_def label_in_release_def candidate_short_id_def
        candidate_pref_label_def label_only_annotation_def has_label_def cl_lexicon_ids ev_strings)

lemma neuron_not_in_release:
  "\<not> id_in_release cl_lexicon neuron_annotation \<and> \<not> label_in_release cl_lexicon neuron_annotation
   \<and> candidate_short_id neuron_annotation = Some ''CL_0000540''"
  by (simp add: id_in_release_def label_in_release_def candidate_short_id_def
        candidate_pref_label_def neuron_annotation_def has_id_def has_label_def cl_lexicon_ids
        ev_strings)

theorem release_lexicon_checks_witness:
  "owl_lexicon res_2023 = Some cl_lexicon
   \<and> candidate_short_id cell_annotation = Some ''CL_0000001''
   \<and> has_id cl_lexicon ''CL_0000001''
   \<and> comment (evaluate_term ''cell'' [cell_annotation] (Some ''2023-01-01'') ''error'' res_2023
               ''2024-01-01'') = ''matched in user specified version''
   \<and> standardized_term (evaluate_term ''cell'' [cell_annotation] (Some ''2023-01-01'') ''error''
                         res_2023 ''2024-01-01'') = Some ''cell''
   \<and> label_in_release cl_lexicon label_only_annotation
   \<and> comment (evaluate_term ''Cell'' [label_only_annotation] (Some ''2023-01-01'') ''error''
               res_2023 ''2024-01-01'') = ''matched in user specified version''
   \<and> standardized_term (evaluate_term ''Cell'' [label_only_annotation] (Some ''2023-01-01'')
                         ''error'' res_2023 ''2024-01-01'') = Some ''Cell''"
proof -
  have lx: "owl_lexicon res_2023 = Some cl_lexicon" by (simp add: res_2023_def)
  have v: "truthy (Some ''2023-01-01'')" by (simp add: truthy_def)
  have nf: "\<not> version_fallback res_2023" by (simp add: res_2023_def)
  note by_id = release_lexicon_checks [OF lx v nf, of cell_annotation "''cell''" "[]" "''error''"
                 "''2024-01-01''"]
  note by_label = release_lexicon_checks [OF lx v nf, of label_only_annotation "''Cell''" "[]"
                    "''error''" "''2024-01-01''"]
  from by_id cell_in_release have
    "comment (evaluate_term ''cell'' [cell_annotation] (Some ''2023-01-01'') ''error'' res_2023
               ''2024-01-01'') = ''matched in user specified version''
     \<and> standardized_term (evaluate_term ''cell'' [cell_annotation] (Some ''2023-01-01'') ''error''
                         res_2023 ''2024-01-01'')
         = (case get_label_by_id cl_lexicon ''CL_0000001'' of
              None \<Rightarrow> candidate_pref_label cell_annotation
            | Some owl_label \<Rightarrow>
                if owl_label = [] then candidate_pref_label cell_annotation else Some owl_label)"
    by blast
  with cell_in_release have a:
    "comment (evaluate_term ''cell'' [cell_annotation] (Some ''2023-01-01'') ''error'' res_2023
               ''2024-01-01'') = ''matched in user specified version''"
    "standardized_term (evaluate_term ''cell'' [cell_annotation] (Some ''2023-01-01'') ''error''
                         res_2023 ''2024-01-01'') = Some ''cell''"
    by simp_all
  from by_label label_only_in_release have b:
    "comment (evaluate_term ''Cell'' [label_only_annotation] (Some ''2023-01-01'') ''error''
               res_2023 ''2024-01-01'') = ''matched in user specified version''"
    "standardized_term (evaluate_term ''Cell'' [label_only_annotation] (Some ''2023-01-01'')
                         ''error'' res_2023 ''2024-01-01'') = Some ''Cell''"
    by simp_all
  from lx cell_in_release label_only_in_release a b show ?thesis by (intro conjI) simp_all
qed

text \<open>
  C6. Under the strict policy, with a release lexicon in which neither the short
  identifier nor the preferred label of the top candidate is found, the outcome of the
  term has no standardized term, the short identifier of the candidate, the resolved
  version (the requested one where no resolved version is present) and the comment
  \<open>strict mode: not matched in specified version\<close>; the loop goes on to the next
  term after the single annotation request it made for this one.
\<close>

theorem strict_not_in_release:
  assumes lx: "owl_lexicon res = Some lx" and v: "truthy version" and nf: "\<not> version_fallback res"
    and strict: "ovm \<noteq> ''latest''"
    and answer: "annotator w (length (calls w)) trm ontology = Some (top_annotation # others)"
    and no_id: "\<not> id_in_release lx top_annotation"
    and no_label: "\<not> label_in_release lx top_annotation"
  shows "evaluate_term trm (top_annotation # others) version ovm res latest
           = \<lparr>input_text = trm, standardized_term = None,
              ontology_id = candidate_short_id top_annotation,
              ontology_version = (case resolved_version res of
                                    None \<Rightarrow> version
                                  | Some r \<Rightarrow> if r = [] then version else Some r),
              comment = ''strict mode: not matched in specified version''\<rparr>
         \<and> annotate_loop ontology version ovm res latest (trm # rest) outs w
           = annotate_loop ontology version ovm res latest rest
               (outs @ [\<lparr>input_text = trm, standardized_term = None,
                         ontology_id = candidate_short_id top_annotation,
                         ontology_version = (case resolved_version res of
                                               None \<Rightarrow> version
                                             | Some r \<Rightarrow> if r = [] then version else Some r),
                         comment = ''strict mode: not matched in specified version''\<rparr>])
               (w\<lparr>calls := calls w @ [AnnotateText trm ontology]\<rparr>)"
proof -
  from verify_in_release_by_label [OF no_id] no_label
  have vr: "verify_in_release (Some lx) (candidate_short_id top_annotation)
              (candidate_pref_label top_annotation) = (False, None)"
    by simp
  have e: "evaluate_term trm (top_annotation # others) version ovm res latest
           = \<lparr>input_text = trm, standardized_term = None,
              ontology_id = candidate_short_id top_annotation,
              ontology_version = (case resolved_version res of
                                    None \<Rightarrow> version
                                  | Some r \<Rightarrow> if r = [] then version else Some r),
              comment = ''strict mode: not matched in specified version''\<rparr>"
    using lx v nf strict
    by (simp add: evaluate_term_def vr Let_def py_or_def truthy_def split: option.splits)
  have "annotate_text trm ontology w
          = (Inr (top_annotation # others), w\<lparr>calls := calls w @ [AnnotateText trm ontology]\<rparr>)"
    by (simp add: annotate_text_def answer)
  then have "annotate_loop ontology version ovm res latest (trm # rest) outs w
           = annotate_loop ontology version ovm res latest rest
               (outs @ [evaluate_term trm (top_annotation # others) version ovm res latest])
               (w\<lparr>calls := calls w @ [AnnotateText trm ontology]\<rparr>)"
    by simp
  with e show ?thesis by simp
qed

lemma run_strict_unmatched:
  "fst (annotate_terms tg ''CL'' (Some [Some ''neuron'']) None (Some ''2023-01-01'') ''error'' w0) =
   Inr [\<lparr>input_text = ''neuron'', standardized_term = None,
          ontology_id = Some ''CL_0000540'', ontology_version = Some ''2023-01-01'',
          comment = ''strict mode: not matched in specified version''\<rparr>]"
  by (simp add: ev_tagger ev_client ev_lexicon ev_world ev_strings)

theorem strict_not_in_release_witness:
  "owl_lexicon res_2023 = Some cl_lexicon
   \<and> annotator w0 (length (calls w0)) ''neuron'' ''CL'' = Some [neuron_annotation]
   \<and> evaluate_term ''neuron'' [neuron_annotation] (Some ''2023-01-01'') ''error'' res_2023
        ''2024-01-01''
       = \<lparr>input_text = ''neuron'', standardized_term = None,
          ontology_id = Some ''CL_0000540'', ontology_version = Some ''2023-01-01'',
          comment = ''strict mode: not matched in specified version''\<rparr>
   \<and> annotate_loop ''CL'' (Some ''2023-01-01'') ''error'' res_2023 ''2024-01-01'' [''neuron''] [] w0
       = (Inr [\<lparr>input_text = ''neuron'', standardized_term = None,
                ontology_id = Some ''CL_0000540'', ontology_version = Some ''2023-01-01'',
                comment = ''strict mode: not matched in specified version''\<rparr>],
          w0\<lparr>calls := [AnnotateText ''neuron'' ''CL'']\<rparr>)
   \<and> fst (annotate_terms tg ''CL'' (Some [Some ''neuron'']) None (Some ''2023-01-01'') ''error'' w0)
       = Inr [\<lparr>input_text = ''neuron'', standardized_term = None,
                ontology_id = Some ''CL_0000540'', ontology_version = Some ''2023-01-01'',
                comment = ''strict mode: not matched in specified version''\<rparr>]"
proof -
  have lx: "owl_lexicon res_2023 = Some cl_lexicon" by (simp add: res_2023_def)
  have v: "truthy (Some ''2023-01-01'')" by (simp add: truthy_def)
  have nf: "\<not> version_fallback res_2023" by (simp add: res_2023_def)
  have strict: "''error'' \<noteq> ''latest''" by simp
  have answer: "annotator w0 (length (calls w0)) ''neuron'' ''CL'' = Some (neuron_annotation # [])"
    by (simp add: w0_def cl_annotator_def)
  from neuron_not_in_release have no_id: "\<not> id_in_release cl_lexicon neuron_annotation"
    and no_label: "\<not> label_in_release cl_lexicon neuron_annotation" by simp_all
  note t = strict_not_in_release [OF lx v nf strict answer no_id no_label,
             of "''2024-01-01''" "[]" "[]"]
  have rvs: "(case resolved_version res_2023 of None \<Rightarrow> Some ''2023-01-01''
              | Some r \<Rightarrow> if r = [] then Some ''2023-01-01'' else Some r) = Some ''2023-01-01''"
    by (simp add: res_2023_def)
  have sid: "candidate_short_id neuron_annotation = Some ''CL_0000540''"
    using neuron_not_in_release by simp
  have tr: "calls w0 @ [AnnotateText ''neuron'' ''CL''] = [AnnotateText ''neuron'' ''CL'']"
    by (simp add: w0_def)
  from t have e: "evaluate_term ''neuron'' [neuron_annotation] (Some ''2023-01-01'') ''error'' res_2023
        ''2024-01-01''
       = \<lparr>input_text = ''neuron'', standardized_term = None,
          ontology_id = Some ''CL_0000540'', ontology_version = Some ''2023-01-01'',
          comment = ''strict mode: not matched in specified version''\<rparr>"
    by (simp only: rvs sid)
  from t have l: "annotate_loop ''CL'' (Some ''2023-01-01'') ''error'' res_2023 ''2024-01-01'' [''neuron''] [] w0
       = (Inr [\<lparr>input_text = ''neuron'', standardized_term = None,
                ontology_id = Some ''CL_0000540'', ontology_version = Some ''2023-01-01'',
                comment = ''strict mode: not matched in specified version''\<rparr>],
          w0\<lparr>calls := [AnnotateText ''neuron'' ''CL'']\<rparr>)"
    by (simp only: rvs sid tr annotate_loop.simps append_Nil)
  from answer have answer': "annotator w0 (length (calls w0)) ''neuron'' ''CL'' = Some [neuron_annotation]" .
  from lx answer' e l run_strict_unmatched show ?thesis by (intro conjI)
qed

end
